theory Spec2Isabelle
  imports Complex_Main "HOL-Library.Sublist"
begin

section \<open>Thrown values\<close>

text \<open>
  What a JavaScript \<^verbatim>\<open>throw\<close> or a rejected promise carries in this code base:
  an instance of \<^verbatim>\<open>ScanError\<close> (middleware/errorHandler.ts), a plain \<^verbatim>\<open>Error\<close>
  with its message, or a value that is not an \<^verbatim>\<open>Error\<close> at all.
\<close>

datatype thrown = ScanError string | Error string | NonError

section \<open>Concurrency gate: TruffleHogService.scanRepository\<close>

text \<open>
  The fields of \<^verbatim>\<open>class TruffleHogService\<close>. \<^verbatim>\<open>maxConcurrentScans\<close> and
  \<^verbatim>\<open>timeout\<close> come from the configuration; \<^verbatim>\<open>currentScans\<close> starts at 0.
\<close>

record TruffleHogService =
  maxConcurrentScans :: int
  currentScans :: int
  timeout :: int

definition new_TruffleHogService :: "int \<Rightarrow> int \<Rightarrow> TruffleHogService" where
  "new_TruffleHogService cap tmo =
     \<lparr>maxConcurrentScans = cap, currentScans = 0, timeout = tmo\<rparr>"

text \<open>
  \<^verbatim>\<open>scanRepository\<close> is an async method with one suspension point, the
  \<^verbatim>\<open>await this.executeTruffleHog(repoUrl)\<close>. Everything before it runs without
  interruption when the method is called (\<open>scanRepository_enter\<close>: the capacity
  check, the throw, the increment); everything after it runs without interruption when the
  awaited promise settles (\<open>scanRepository_settle\<close>: the return or the catch
  block, then the finally block with the decrement).
\<close>

definition scanRepository_enter ::
  "TruffleHogService \<Rightarrow> TruffleHogService \<times> (thrown + unit)" where
  "scanRepository_enter s =
     (if currentScans s \<ge> maxConcurrentScans s
      then (s, Inl (ScanError ''Maximum concurrent scans reached. Please try again later.''))
      else (s\<lparr>currentScans := currentScans s + 1\<rparr>, Inr ()))"

definition scanRepository_settle ::
  "TruffleHogService \<Rightarrow> thrown + 'r \<Rightarrow> TruffleHogService \<times> (thrown + 'r)" where
  "scanRepository_settle s outcome =
     (let res =
        (case outcome of
           Inr results \<Rightarrow> Inr results
         | Inl (ScanError m) \<Rightarrow> Inl (ScanError m)
         | Inl (Error m) \<Rightarrow> Inl (ScanError (''Failed to scan repository: '' @ m))
         | Inl NonError \<Rightarrow> Inl (ScanError ''Failed to scan repository: Unknown error''))
      in (s\<lparr>currentScans := currentScans s - 1\<rparr>, res))"

text \<open>One whole call, given how the awaited \<^verbatim>\<open>executeTruffleHog\<close> settles.\<close>

definition scanRepository ::
  "TruffleHogService \<Rightarrow> thrown + 'r \<Rightarrow> TruffleHogService \<times> (thrown + 'r)" where
  "scanRepository s outcome =
     (case scanRepository_enter s of
        (s', Inl e) \<Rightarrow> (s', Inl e)
      | (s', Inr _) \<Rightarrow> scanRepository_settle s' outcome)"

text \<open>
  Many requests on one service object. The event loop interleaves them at the await only,
  so a run is a sequence of two kinds of event: a new call of \<^verbatim>\<open>scanRepository\<close>,
  and the settling of the scan of one request that is suspended at the await. The state
  pairs the service object with the number of requests suspended there (those that hold a
  permit). A settle event with no suspended request cannot happen and is ignored.
\<close>

datatype 'r gate_event = Call | Settle "thrown + 'r"

fun gate_step :: "TruffleHogService \<times> nat \<Rightarrow> 'r gate_event \<Rightarrow> TruffleHogService \<times> nat" where
  "gate_step (s, p) Call =
     (case scanRepository_enter s of
        (s', Inl _) \<Rightarrow> (s', p)
      | (s', Inr _) \<Rightarrow> (s', Suc p))"
| "gate_step (s, p) (Settle outcome) =
     (if p = 0 then (s, p) else (fst (scanRepository_settle s outcome), p - 1))"

definition gate_run :: "TruffleHogService \<Rightarrow> 'r gate_event list \<Rightarrow> TruffleHogService \<times> nat" where
  "gate_run s evs = foldl gate_step (s, 0) evs"

section \<open>JavaScript values and strings\<close>

text \<open>
  A value as \<^verbatim>\<open>JSON.parse\<close> or the body parser delivers it. A property that is
  absent reads as \<^verbatim>\<open>undefined\<close>, modelled as \<open>None\<close> of \<open>json option\<close>. An
  object keeps its properties as an association list with distinct keys.
\<close>

datatype json =
  JNull | JBool bool | JNum real | JStr string | JArr "json list" | JObj "(string \<times> json) list"

text \<open>Truthiness, as \<^verbatim>\<open>!x\<close> and \<^verbatim>\<open>x || y\<close> test it.\<close>

fun truthy :: "json option \<Rightarrow> bool" where
  "truthy None = False"
| "truthy (Some JNull) = False"
| "truthy (Some (JBool b)) = b"
| "truthy (Some (JNum x)) = (x \<noteq> 0)"
| "truthy (Some (JStr s)) = (s \<noteq> [])"
| "truthy (Some (JArr _)) = True"
| "truthy (Some (JObj _)) = True"

text \<open>\<^verbatim>\<open>s.includes(sub)\<close> on strings: \<open>sub\<close> occurs in \<open>s\<close> as a contiguous run.\<close>

definition js_includes :: "string \<Rightarrow> string \<Rightarrow> bool" where
  "js_includes s sub = sublist sub s"

text \<open>
  \<^verbatim>\<open>[...].includes(v)\<close> on an array of string literals: only a string equal to one of
  them is found.
\<close>

definition array_includes :: "string list \<Rightarrow> json option \<Rightarrow> bool" where
  "array_includes xs v = (case v of Some (JStr s) \<Rightarrow> s \<in> set xs | _ \<Rightarrow> False)"

section \<open>Request validation: validateScanRequest\<close>

text \<open>
  The two properties of a WHATWG \<^verbatim>\<open>URL\<close> object the validator reads. The URL parser
  itself is the platform's: \<^verbatim>\<open>new URL(s)\<close> is a parameter \<open>new_URL\<close> of the model,
  \<open>None\<close> when it throws.
\<close>

record URL =
  protocol :: string
  hostname :: string

text \<open>
  What an Express middleware does with a request: it calls \<^verbatim>\<open>next()\<close>, or it answers
  with a status, an error code, a message and a list of details.
\<close>

datatype handler_result =
  CallNext
  | Respond (resp_status: nat) (resp_code: string) (resp_message: string)
      (resp_details: "string list")

text \<open>The messages pushed by the \<^verbatim>\<open>repoUrl\<close> block, in order.\<close>

definition validate_repoUrl ::
  "(string \<Rightarrow> URL option) \<Rightarrow> json option \<Rightarrow> json option \<Rightarrow> string list" where
  "validate_repoUrl new_URL repoUrl provider =
     (if \<not> truthy repoUrl then [''repoUrl is required'']
      else (case repoUrl of
        Some (JStr s) \<Rightarrow>
          (case new_URL s of
             None \<Rightarrow> [''repoUrl must be a valid URL'']
           | Some url \<Rightarrow>
               (if protocol url \<notin> set [''http:'', ''https:'']
                then [''repoUrl must be a valid HTTP/HTTPS URL''] else [])
               @ (if \<not> list_ex (\<lambda>host. js_includes (hostname url) host)
                        [''github.com'', ''gitlab.com'', ''bitbucket.org'']
                  then (if provider \<noteq> Some (JStr ''other'')
                        then [''repoUrl must be from a supported Git provider''] else [])
                  else []))
      | _ \<Rightarrow> [''repoUrl must be a string'']))"

text \<open>The messages pushed by the \<^verbatim>\<open>provider\<close> block.\<close>

definition validate_provider :: "json option \<Rightarrow> string list" where
  "validate_provider provider =
     (if \<not> truthy provider then [''provider is required'']
      else if \<not> array_includes [''github'', ''gitlab'', ''bitbucket'', ''other''] provider
      then [''provider must be one of: github, gitlab, bitbucket, other'']
      else [])"

definition validateScanRequest ::
  "(string \<Rightarrow> URL option) \<Rightarrow> json option \<Rightarrow> json option \<Rightarrow> handler_result" where
  "validateScanRequest new_URL repoUrl provider =
     (let errors = validate_repoUrl new_URL repoUrl provider @ validate_provider provider
      in if length errors > 0
         then Respond 400 ''VALIDATION_ERROR'' ''Validation failed'' errors
         else CallNext)"

text \<open>
  A URL parser for two sample addresses, with the protocol and host name the WHATWG parser
  gives them; it is used to run the validator on concrete requests.
\<close>

definition sample_URL :: "string \<Rightarrow> URL option" where
  "sample_URL s =
     (if s = ''https://github.com.evil.example/x''
      then Some \<lparr>protocol = ''https:'', hostname = ''github.com.evil.example''\<rparr>
      else if s = ''http://10.0.0.1/repo.git''
      then Some \<lparr>protocol = ''http:'', hostname = ''10.0.0.1''\<rparr>
      else None)"

section \<open>Building and launching the scanner command\<close>

text \<open>The two quote characters, and \<^verbatim>\<open>Array.prototype.join\<close> on strings.\<close>

definition sq :: char where
  "sq = CHR 0x27"

definition dq :: char where
  "dq = CHR 0x22"

fun js_join :: "string \<Rightarrow> string list \<Rightarrow> string" where
  "js_join sep [] = []"
| "js_join sep [x] = x"
| "js_join sep (x # y # ys) = x @ sep @ js_join sep (y # ys)"

text \<open>
  \<^verbatim>\<open>escapeShellArg\<close>: every single quote of the argument is replaced by the five
  characters quote, double quote, quote, double quote, quote, and the result is wrapped in
  single quotes.
\<close>

definition escapeShellArg :: "string \<Rightarrow> string" where
  "escapeShellArg arg =
     [sq] @ concat (map (\<lambda>c. if c = sq then [sq, dq, sq, dq, sq] else [c]) arg) @ [sq]"

text \<open>
  \<^verbatim>\<open>buildTruffleHogCommand\<close>: the subcommand is chosen by searching the text of the
  URL, first for gitlab.com, then for github.com; the result is one command line.
\<close>

definition subcommand_of :: "string \<Rightarrow> string" where
  "subcommand_of repoUrl =
     (if js_includes repoUrl ''gitlab.com'' then ''gitlab''
      else if js_includes repoUrl ''github.com'' then ''github''
      else ''git'')"

definition buildTruffleHogCommand :: "string \<Rightarrow> string" where
  "buildTruffleHogCommand repoUrl =
     (let subcommand = subcommand_of repoUrl;
          flags = [''--json'', ''--no-verification'', ''--concurrency=1'']
      in if subcommand = ''git''
         then ''trufflehog git '' @ escapeShellArg repoUrl @ '' '' @ js_join '' '' flags
         else ''trufflehog '' @ subcommand @ '' --repo='' @ escapeShellArg repoUrl @ '' ''
              @ js_join '' '' flags)"

text \<open>
  How a program is started through Node's \<^verbatim>\<open>child_process\<close> module:
  \<^verbatim>\<open>exec(command)\<close> hands one command line to a shell (\<^verbatim>\<open>/bin/sh -c command\<close>),
  which splits it into words; \<^verbatim>\<open>execFile(file, args)\<close> passes the program and its
  argument vector with no shell in between. \<^verbatim>\<open>executeWithTimeout\<close> calls
  \<^verbatim>\<open>exec\<close>, and \<^verbatim>\<open>executeTruffleHog\<close> gives it the command line built above.
  Two command lines start no process at all: one that holds a zero byte, for which
  \<^verbatim>\<open>exec\<close> throws a TypeError (\<^verbatim>\<open>ERR_INVALID_ARG_VALUE\<close>) before anything is
  spawned; and one that, with its terminating zero byte, does not fit the 131072 bytes the
  operating system allows a single argument, for which spawning the shell fails with
  \<^verbatim>\<open>E2BIG\<close>, an error that \<^verbatim>\<open>exec\<close> throws as well.
\<close>

datatype child_process_call =
  Exec string | ExecFile string "string list" | Exec_throws | Spawn_fails

definition max_arg_strlen :: nat where
  "max_arg_strlen = 131072"

definition executeWithTimeout_call :: "string \<Rightarrow> child_process_call" where
  "executeWithTimeout_call command =
     (if CHR 0x00 \<in> set command then Exec_throws
      else if max_arg_strlen \<le> length command then Spawn_fails
      else Exec command)"

definition executeTruffleHog_call :: "string \<Rightarrow> child_process_call" where
  "executeTruffleHog_call repoUrl = executeWithTimeout_call (buildTruffleHogCommand repoUrl)"

text \<open>
  Word splitting of a command line by a POSIX shell, for the fragment of the shell language
  these command lines use: words separated by spaces, single-quoted text (everything up to
  the next single quote, literally) and double-quoted text without expansions. The result
  is \<open>None\<close> for every command line outside this fragment: an unquoted character
  that is special to the shell, a dollar sign, backquote or backslash between double
  quotes, an unterminated quotation, or a zero byte anywhere. The second argument is the
  word being read, if any.
\<close>

datatype sh_mode = Unquoted | InSingle | InDouble

definition sh_special :: "char \<Rightarrow> bool" where
  "sh_special c = (c \<in> set ''|&;<>()$`*?[]#~%!{}'' \<or> c = CHR 0x5C \<or> c = CHR 0x0A
     \<or> c = CHR 0x09 \<or> c = CHR 0x00)"

definition sh_add :: "string option \<Rightarrow> char \<Rightarrow> string option" where
  "sh_add w c = (case w of None \<Rightarrow> Some [c] | Some v \<Rightarrow> Some (v @ [c]))"

definition sh_open :: "string option \<Rightarrow> string option" where
  "sh_open w = (case w of None \<Rightarrow> Some [] | Some v \<Rightarrow> Some v)"

definition sh_finish :: "string option \<Rightarrow> string list" where
  "sh_finish w = (case w of None \<Rightarrow> [] | Some v \<Rightarrow> [v])"

fun sh_words :: "sh_mode \<Rightarrow> string option \<Rightarrow> string \<Rightarrow> string list option" where
  "sh_words Unquoted w [] = Some (sh_finish w)"
| "sh_words Unquoted w (c # cs) =
     (if c = CHR '' '' then map_option (\<lambda>ws. sh_finish w @ ws) (sh_words Unquoted None cs)
      else if c = sq then sh_words InSingle (sh_open w) cs
      else if c = dq then sh_words InDouble (sh_open w) cs
      else if sh_special c then None
      else sh_words Unquoted (sh_add w c) cs)"
| "sh_words InSingle w [] = None"
| "sh_words InSingle w (c # cs) =
     (if c = sq then sh_words Unquoted w cs
      else if c = CHR 0x00 then None
      else sh_words InSingle (sh_add w c) cs)"
| "sh_words InDouble w [] = None"
| "sh_words InDouble w (c # cs) =
     (if c = dq then sh_words Unquoted w cs
      else if c = CHR ''$'' \<or> c = CHR ''`'' \<or> c = CHR 0x5C \<or> c = CHR 0x00 then None
      else sh_words InDouble (sh_add w c) cs)"

text \<open>
  The argument vector the scanner is started with when \<^verbatim>\<open>executeWithTimeout\<close> is
  given a command line: what the shell makes of the line, and none when no shell is
  started.
\<close>

definition exec_argv :: "string \<Rightarrow> string list option" where
  "exec_argv command =
     (case executeWithTimeout_call command of
        Exec line \<Rightarrow> sh_words Unquoted None line
      | ExecFile file args \<Rightarrow> Some (file # args)
      | Exec_throws \<Rightarrow> None
      | Spawn_fails \<Rightarrow> None)"

section \<open>The Redis commands the rate limiter uses\<close>

text \<open>
  A sorted set pairs each member with its score; a member occurs once. The members the
  rate limiter writes are the template strings \<^verbatim>\<open>`${now}-${Math.random()}`\<close>; such a
  string determines both of its parts (the time stamp is a run of digits, so the first
  hyphen separates them), and the model keeps the two parts as a pair. A key holds a sorted
  set and, when \<^verbatim>\<open>EXPIRE\<close> has set one, the time (in milliseconds) at which the key
  disappears. Every command runs at a time \<open>t\<close> of the server's clock and sees only
  the keys that have not expired by then.
\<close>

type_synonym member = "int \<times> real"

record zentry =
  zmembers :: "(member \<times> int) list"
  expire_at :: "int option"

type_synonym redis = "string \<Rightarrow> zentry option"

definition redis_live :: "int \<Rightarrow> redis \<Rightarrow> string \<Rightarrow> zentry option" where
  "redis_live t db key =
     (case db key of
        None \<Rightarrow> None
      | Some e \<Rightarrow> (case expire_at e of
                    None \<Rightarrow> Some e
                  | Some d \<Rightarrow> if d \<le> t then None else Some e))"

text \<open>
  \<^verbatim>\<open>ZREMRANGEBYSCORE key lo hi\<close> removes the members whose score lies between
  \<open>lo\<close> and \<open>hi\<close>, both included; a sorted set left empty is deleted with its key.
\<close>

definition zremrangebyscore :: "int \<Rightarrow> string \<Rightarrow> int \<Rightarrow> int \<Rightarrow> redis \<Rightarrow> redis \<times> int" where
  "zremrangebyscore t key lo hi db =
     (case redis_live t db key of
        None \<Rightarrow> (db(key := None), 0)
      | Some e \<Rightarrow>
          (let keep = filter (\<lambda>(m, s). \<not> (lo \<le> s \<and> s \<le> hi)) (zmembers e);
               removed = int (length (zmembers e)) - int (length keep)
           in if keep = [] then (db(key := None), removed)
              else (db(key \<mapsto> e\<lparr>zmembers := keep\<rparr>), removed)))"

definition zcard :: "int \<Rightarrow> string \<Rightarrow> redis \<Rightarrow> redis \<times> int" where
  "zcard t key db =
     (case redis_live t db key of
        None \<Rightarrow> (db, 0)
      | Some e \<Rightarrow> (db, int (length (zmembers e))))"

text \<open>\<^verbatim>\<open>EXPIRE key seconds\<close> answers 0 and does nothing when the key does not exist.\<close>

definition expire :: "int \<Rightarrow> string \<Rightarrow> int \<Rightarrow> redis \<Rightarrow> redis \<times> int" where
  "expire t key seconds db =
     (case redis_live t db key of
        None \<Rightarrow> (db, 0)
      | Some e \<Rightarrow> (db(key \<mapsto> e\<lparr>expire_at := Some (t + seconds * 1000)\<rparr>), 1))"

text \<open>
  \<^verbatim>\<open>ZADD key score member\<close> creates the key when it is missing, and gives a member
  that is already there its new score.
\<close>

definition zadd :: "int \<Rightarrow> string \<Rightarrow> int \<Rightarrow> member \<Rightarrow> redis \<Rightarrow> redis \<times> int" where
  "zadd t key score m db =
     (case redis_live t db key of
        None \<Rightarrow> (db(key \<mapsto> \<lparr>zmembers = [(m, score)], expire_at = None\<rparr>), 1)
      | Some e \<Rightarrow>
          (db(key \<mapsto> e\<lparr>zmembers := (m, score) # filter (\<lambda>(m', s). m' \<noteq> m) (zmembers e)\<rparr>),
           if m \<in> fst ` set (zmembers e) then 0 else 1))"

section \<open>Rate limiter: RateLimiter.middleware\<close>

record RateLimitOptions =
  windowMs :: int
  maxRequests :: int

text \<open>The store key of a client: \<^verbatim>\<open>`rate_limit:${this.options.keyGenerator(req)}`\<close>.\<close>

definition rate_limit_key :: "string \<Rightarrow> string" where
  "rate_limit_key clientKey = ''rate_limit:'' @ clientKey"

text \<open>
  The reply of one queued command in the array \<^verbatim>\<open>multi.exec()\<close> resolves to: the
  pair \<^verbatim>\<open>[error, value]\<close>, with an error and no value, or no error and the value.
\<close>

datatype slot = Slot_error | Slot_value int

text \<open>A promise settles: it is rejected, or resolved with a value.\<close>

datatype 'a settled = Rejected | Resolved 'a

text \<open>\<^verbatim>\<open>Math.ceil(window / 1000)\<close> on an integer number of milliseconds.\<close>

definition ceil_seconds :: "int \<Rightarrow> int" where
  "ceil_seconds window = - ((- window) div 1000)"

text \<open>
  The transaction the middleware queues and runs with \<^verbatim>\<open>multi.exec()\<close>: the three
  commands run one after the other with nothing in between, and the answer holds their
  three replies.
\<close>

definition rate_limit_multi ::
  "RateLimitOptions \<Rightarrow> int \<Rightarrow> string \<Rightarrow> int \<Rightarrow> redis \<Rightarrow> redis \<times> slot list" where
  "rate_limit_multi opts t key now db =
     (let window = windowMs opts;
          windowStart = now - window;
          (db1, r1) = zremrangebyscore t key 0 windowStart db;
          (db2, r2) = zcard t key db1;
          (db3, r3) = expire t key (ceil_seconds window) db2
      in (db3, [Slot_value r1, Slot_value r2, Slot_value r3]))"

text \<open>
  The code between the two awaits. \<^verbatim>\<open>await multi.exec()\<close> has settled: a rejection
  goes to the catch block; \<^verbatim>\<open>null\<close> makes the code throw, caught by the same block;
  otherwise \<^verbatim>\<open>results[1][1]\<close> is read, which throws when there is no second reply and
  is \<^verbatim>\<open>undefined\<close> when that reply is an error. \<^verbatim>\<open>undefined >= maxRequests\<close> is
  false. The outcome is one of: answer 429, go on to \<^verbatim>\<open>redis.zadd\<close>, or land in the
  catch block.
\<close>

datatype after_exec = Deny | Record | Caught

definition currentCount :: "slot list \<Rightarrow> int option option" where
  "currentCount results =
     (case results of
        _ # Slot_value n # _ \<Rightarrow> Some (Some n)
      | _ # Slot_error # _ \<Rightarrow> Some None
      | _ \<Rightarrow> None)"

definition middleware_after_exec ::
  "RateLimitOptions \<Rightarrow> slot list option settled \<Rightarrow> after_exec" where
  "middleware_after_exec opts ex =
     (case ex of
        Rejected \<Rightarrow> Caught
      | Resolved None \<Rightarrow> Caught
      | Resolved (Some results) \<Rightarrow>
          (case currentCount results of
             None \<Rightarrow> Caught
           | Some None \<Rightarrow> Record
           | Some (Some n) \<Rightarrow> if n \<ge> maxRequests opts then Deny else Record))"

definition too_many_requests :: handler_result where
  "too_many_requests =
     Respond 429 ''RATE_LIMIT_EXCEEDED'' ''Too many requests, please try again later'' []"

text \<open>
  The rest of the middleware. After \<^verbatim>\<open>await redis.zadd(...)\<close> the headers are set and
  \<^verbatim>\<open>next()\<close> is called; a rejection of the \<^verbatim>\<open>zadd\<close> goes to the catch block, which
  logs and calls \<^verbatim>\<open>next()\<close> as well. (The response headers are not part of the model.)
\<close>

definition middleware_after_zadd :: "int settled \<Rightarrow> handler_result" where
  "middleware_after_zadd z = (case z of Rejected \<Rightarrow> CallNext | Resolved _ \<Rightarrow> CallNext)"

text \<open>
  The middleware as a function of what the store answers: the settled
  \<^verbatim>\<open>multi.exec()\<close> and, when the code gets that far, the settled \<^verbatim>\<open>redis.zadd\<close>.
\<close>

definition middleware_outcome ::
  "RateLimitOptions \<Rightarrow> slot list option settled \<Rightarrow> int settled \<Rightarrow> handler_result" where
  "middleware_outcome opts ex z =
     (case middleware_after_exec opts ex of
        Caught \<Rightarrow> CallNext
      | Deny \<Rightarrow> too_many_requests
      | Record \<Rightarrow> middleware_after_zadd z)"

text \<open>
  One call of the middleware from start to end against a working store, with nothing else
  touching the store in between: \<open>clientKey\<close> is what \<^verbatim>\<open>keyGenerator(req)\<close> returns,
  \<open>now\<close> is \<^verbatim>\<open>Date.now()\<close> (the store's clock shows the same time), \<open>rnd\<close> is the
  value of \<^verbatim>\<open>Math.random()\<close>.
\<close>

definition middleware ::
  "RateLimitOptions \<Rightarrow> string \<Rightarrow> int \<Rightarrow> real \<Rightarrow> redis \<Rightarrow> redis \<times> handler_result" where
  "middleware opts clientKey now rnd db =
     (let key = rate_limit_key clientKey;
          (db1, results) = rate_limit_multi opts now key now db
      in case middleware_after_exec opts (Resolved (Some results)) of
           Caught \<Rightarrow> (db1, CallNext)
         | Deny \<Rightarrow> (db1, too_many_requests)
         | Record \<Rightarrow>
             (let (db2, r) = zadd now key now (now, rnd) db1
              in (db2, middleware_after_zadd (Resolved r))))"

text \<open>
  Requests in flight together. Each request is suspended at most twice, at the two awaits,
  and the event loop may run another request's code while it waits. A request is either
  about to start, or waiting for its \<^verbatim>\<open>zadd\<close> to be sent after a transaction that
  found it under the limit, or finished with its result; until it has finished it carries
  its key, its \<^verbatim>\<open>Date.now()\<close> and its \<^verbatim>\<open>Math.random()\<close>. One step runs the next
  piece of one request, at time \<open>t\<close> of the store's clock.
\<close>

datatype request = Arrived string int real | Counted string int real | Finished handler_result

definition request_step ::
  "RateLimitOptions \<Rightarrow> int \<Rightarrow> request \<Rightarrow> redis \<Rightarrow> redis \<times> request" where
  "request_step opts t rq db =
     (case rq of
        Arrived clientKey now rnd \<Rightarrow>
          (let key = rate_limit_key clientKey;
               (db1, results) = rate_limit_multi opts t key now db
           in case middleware_after_exec opts (Resolved (Some results)) of
                Caught \<Rightarrow> (db1, Finished CallNext)
              | Deny \<Rightarrow> (db1, Finished too_many_requests)
              | Record \<Rightarrow> (db1, Counted key now rnd))
      | Counted key now rnd \<Rightarrow>
          (let (db2, r) = zadd t key now (now, rnd) db
           in (db2, Finished (middleware_after_zadd (Resolved r))))
      | Finished res \<Rightarrow> (db, Finished res))"

text \<open>A schedule names, step by step, the request that runs next and the time.\<close>

fun run_schedule ::
  "RateLimitOptions \<Rightarrow> (nat \<times> int) list \<Rightarrow> redis \<times> request list \<Rightarrow> redis \<times> request list" where
  "run_schedule opts [] st = st"
| "run_schedule opts ((i, t) # sched) (db, rqs) =
     (if i < length rqs
      then (let (db', rq') = request_step opts t (rqs ! i) db
            in run_schedule opts sched (db', rqs[i := rq']))
      else run_schedule opts sched (db, rqs))"

text \<open>The time stamps recorded for a client that are still in the store at time \<open>t\<close>.\<close>

definition recorded :: "int \<Rightarrow> string \<Rightarrow> redis \<Rightarrow> int list" where
  "recorded t clientKey db =
     (case redis_live t db (rate_limit_key clientKey) of
        None \<Rightarrow> []
      | Some e \<Rightarrow> map snd (zmembers e))"

section \<open>Result parser: TruffleHogService.parseTruffleHogOutput\<close>

text \<open>
  Strings are lists of 8-bit characters. \<^verbatim>\<open>String.prototype.trim\<close> removes white space
  and line terminators from both ends; among the characters below 256 these are tab, line
  feed, vertical tab, form feed, carriage return, space and no-break space.
\<close>

definition is_ws :: "char \<Rightarrow> bool" where
  "is_ws c = (c \<in> {CHR 0x09, CHR 0x0A, CHR 0x0B, CHR 0x0C, CHR 0x0D, CHR 0x20, CHR 0xA0})"

definition trim :: "string \<Rightarrow> string" where
  "trim s = rev (dropWhile is_ws (rev (dropWhile is_ws s)))"

text \<open>
  \<^verbatim>\<open>s.split('\n')\<close>: the pieces between line feeds; a string without line feed is one
  piece, and the empty string gives one empty piece.
\<close>

definition nl :: char where
  "nl = CHR 0x0A"

fun split_nl :: "string \<Rightarrow> string list" where
  "split_nl [] = [[]]"
| "split_nl (c # cs) =
     (if c = nl then [] # split_nl cs
      else (case split_nl cs of [] \<Rightarrow> [[c]] | l # ls \<Rightarrow> (c # l) # ls))"

text \<open>
  One finding, \<^verbatim>\<open>interface TruffleHogResult\<close>: every property may be missing
  (\<^verbatim>\<open>undefined\<close>, here \<open>None\<close>).
\<close>

record TruffleHogResult =
  SourceMetadata :: "json option"
  SourceID :: "json option"
  SourceType :: "json option"
  SourceName :: "json option"
  DetectorType :: "json option"
  DetectorName :: "json option"
  DecoderName :: "json option"
  Verified :: "json option"
  Raw :: "json option"
  RawV2 :: "json option"
  Redacted :: "json option"
  ExtraData :: "json option"

text \<open>
  Reading a property \<^verbatim>\<open>parsed.Name\<close> of a value that is not null: an object gives the
  value stored under the name or \<^verbatim>\<open>undefined\<close>; numbers, strings, booleans and arrays
  have none of the twelve properties.
\<close>

definition get_prop :: "json \<Rightarrow> string \<Rightarrow> json option" where
  "get_prop v name = (case v of JObj kvs \<Rightarrow> map_of kvs name | _ \<Rightarrow> None)"

text \<open>\<^verbatim>\<open>a || b\<close>.\<close>

definition js_or :: "json option \<Rightarrow> json option \<Rightarrow> json option" where
  "js_or a b = (if truthy a then a else b)"

text \<open>
  The body of the try block after \<^verbatim>\<open>JSON.parse\<close>. Reading a property of null throws
  a TypeError; nothing else in it can throw.
\<close>

definition make_result :: "json \<Rightarrow> thrown + TruffleHogResult" where
  "make_result parsed =
     (if parsed = JNull then Inl (Error ''Cannot read properties of null'')
      else Inr \<lparr>SourceMetadata = get_prop parsed ''SourceMetadata'',
                SourceID = get_prop parsed ''SourceID'',
                SourceType = get_prop parsed ''SourceType'',
                SourceName = get_prop parsed ''SourceName'',
                DetectorType = get_prop parsed ''DetectorType'',
                DetectorName = get_prop parsed ''DetectorName'',
                DecoderName = get_prop parsed ''DecoderName'',
                Verified = js_or (get_prop parsed ''Verified'') (Some (JBool False)),
                Raw = get_prop parsed ''Raw'',
                RawV2 = get_prop parsed ''RawV2'',
                Redacted = get_prop parsed ''Redacted'',
                ExtraData = js_or (get_prop parsed ''ExtraData'') (Some (JObj []))\<rparr>)"

text \<open>
  The whole try block for one line. \<^verbatim>\<open>JSON.parse\<close> is the platform's: it is the
  parameter \<open>JSON_parse\<close>, \<open>None\<close> when it throws a SyntaxError.
\<close>

definition parse_line :: "(string \<Rightarrow> json option) \<Rightarrow> string \<Rightarrow> thrown + TruffleHogResult" where
  "parse_line JSON_parse line =
     (case JSON_parse line of
        None \<Rightarrow> Inl (Error ''SyntaxError'')
      | Some parsed \<Rightarrow> make_result parsed)"

text \<open>
  The loop over the lines. It carries the array \<^verbatim>\<open>results\<close> and, for the calls of
  \<^verbatim>\<open>logger.warn\<close> in the catch block, the list of the lines warned about (their first
  200 characters).
\<close>

fun parse_lines ::
  "(string \<Rightarrow> json option) \<Rightarrow> string list \<Rightarrow> TruffleHogResult list \<times> string list
   \<Rightarrow> TruffleHogResult list \<times> string list" where
  "parse_lines JSON_parse [] acc = acc"
| "parse_lines JSON_parse (line # lines) (results, warned) =
     (if trim line = [] then parse_lines JSON_parse lines (results, warned)
      else (case parse_line JSON_parse line of
              Inr result \<Rightarrow> parse_lines JSON_parse lines (results @ [result], warned)
            | Inl _ \<Rightarrow> parse_lines JSON_parse lines (results, warned @ [take 200 line])))"

definition parseTruffleHogOutput ::
  "(string \<Rightarrow> json option) \<Rightarrow> string \<Rightarrow> TruffleHogResult list \<times> string list" where
  "parseTruffleHogOutput JSON_parse output =
     (if trim output = [] then ([], [])
      else parse_lines JSON_parse (split_nl (trim output)) ([], []))"

text \<open>
  A JSON decoder for five sample lines, with the values \<^verbatim>\<open>JSON.parse\<close> gives them
  and an error for everything else; it is used to run the parser on concrete outputs. Like
  \<^verbatim>\<open>JSON.parse\<close> it accepts a carriage return after the value and rejects a vertical
  tab there.
\<close>

definition sample_JSON :: "string \<Rightarrow> json option" where
  \<open>sample_JSON s =
     (if s = ''{"DetectorName":"AWS","Verified":true}''
      then Some (JObj [(''DetectorName'', JStr ''AWS''), (''Verified'', JBool True)])
      else if s = ''{"DetectorName":"Slack"}''
      then Some (JObj [(''DetectorName'', JStr ''Slack'')])
      else if s = ''{}'' then Some (JObj [])
      else if s = ''{}'' @ [CHR 0x0D] then Some (JObj [])
      else if s = ''null'' then Some JNull
      else None)\<close>

section \<open>Process runner: TruffleHogService.executeWithTimeout\<close>

text \<open>Decimal notation of a number inside a template string, as for \<^verbatim>\<open>${code}\<close>.\<close>

fun digits_of :: "nat \<Rightarrow> string" where
  "digits_of n =
     (if n < 10 then [char_of (48 + n)]
      else digits_of (n div 10) @ [char_of (48 + n mod 10)])"

declare digits_of.simps [simp del]

definition string_of_int :: "int \<Rightarrow> string" where
  "string_of_int i = (if i < 0 then CHR ''-'' # digits_of (nat (- i)) else digits_of (nat i))"











definition exit_message :: "int \<Rightarrow> string \<Rightarrow> string" where
  "exit_message code err =
     ''TruffleHog exited with code '' @ string_of_int code @ '': ''
       @ (if err \<noteq> [] then err else ''Unknown error'')"












section \<open>TruffleHogService.executeTruffleHog\<close>

text \<open>
  The message of a thrown value that is an \<^verbatim>\<open>Error\<close> (a \<^verbatim>\<open>ScanError\<close> is one too).
\<close>

definition error_message :: "thrown \<Rightarrow> string option" where
  "error_message e = (case e of ScanError m \<Rightarrow> Some m | Error m \<Rightarrow> Some m | NonError \<Rightarrow> None)"

text \<open>
  The catch block of \<^verbatim>\<open>executeTruffleHog\<close>: the error is classified by searching its
  message for substrings, in this order; an error that matches none, and a thrown value
  that is not an \<^verbatim>\<open>Error\<close>, are thrown again unchanged.
\<close>

definition executeTruffleHog_catch :: "thrown \<Rightarrow> thrown" where
  "executeTruffleHog_catch e =
     (case error_message e of
        None \<Rightarrow> e
      | Some m \<Rightarrow>
          if js_includes m ''timeout''
          then ScanError ''Scan timed out. Repository may be too large or network is slow.''
          else if js_includes m ''not found'' \<or> js_includes m ''command not found''
          then ScanError ''TruffleHog is not installed or not accessible.''
          else if js_includes m ''permission denied'' \<or> js_includes m ''access denied''
          then ScanError ''Access denied to repository. Please check repository permissions.''
          else if js_includes m ''repository not found'' \<or> js_includes m ''404''
          then ScanError ''Repository not found or is private.''
          else e)"

text \<open>
  \<^verbatim>\<open>executeTruffleHog\<close>, given how the promise of \<^verbatim>\<open>executeWithTimeout\<close> settles:
  the standard output is parsed, or the error goes through the catch block.
\<close>

definition executeTruffleHog ::
  "(string \<Rightarrow> json option) \<Rightarrow> thrown + string \<times> string \<Rightarrow> thrown + TruffleHogResult list" where
  "executeTruffleHog JSON_parse settled =
     (case settled of
        Inr (out, err) \<Rightarrow> Inr (fst (parseTruffleHogOutput JSON_parse out))
      | Inl e \<Rightarrow> Inl (executeTruffleHog_catch e))"

section \<open>Cache layer: CacheService\<close>

text \<open>
  A value at run time. Beyond the JSON values there are \<^verbatim>\<open>undefined\<close> and \<^verbatim>\<open>Date\<close>
  objects (with their time in milliseconds); an object lists its properties in order, each
  name once.
\<close>

datatype js =
  JsUndefined | JsNull | JsBool bool | JsNum real | JsStr string | JsDate int
  | JsArr "js list" | JsObj "(string \<times> js) list"

text \<open>
  \<^verbatim>\<open>JSON.parse(JSON.stringify(v))\<close>, value to value: a \<^verbatim>\<open>Date\<close> is written as its
  ISO string (\<^verbatim>\<open>toISOString\<close> is the platform's, the parameter \<open>toISO\<close>), a property
  whose value is \<^verbatim>\<open>undefined\<close> is left out, \<^verbatim>\<open>undefined\<close> inside an array becomes
  null, and \<^verbatim>\<open>undefined\<close> itself has no JSON text (\<open>None\<close>).
\<close>

fun json_of :: "(int \<Rightarrow> string) \<Rightarrow> js \<Rightarrow> json option"
  and json_of_items :: "(int \<Rightarrow> string) \<Rightarrow> js list \<Rightarrow> json list"
  and json_of_props :: "(int \<Rightarrow> string) \<Rightarrow> (string \<times> js) list \<Rightarrow> (string \<times> json) list" where
  "json_of toISO JsUndefined = None"
| "json_of toISO JsNull = Some JNull"
| "json_of toISO (JsBool b) = Some (JBool b)"
| "json_of toISO (JsNum x) = Some (JNum x)"
| "json_of toISO (JsStr s) = Some (JStr s)"
| "json_of toISO (JsDate t) = Some (JStr (toISO t))"
| "json_of toISO (JsArr xs) = Some (JArr (json_of_items toISO xs))"
| "json_of toISO (JsObj kvs) = Some (JObj (json_of_props toISO kvs))"
| "json_of_items toISO [] = []"
| "json_of_items toISO (x # xs) =
     (case json_of toISO x of None \<Rightarrow> JNull | Some j \<Rightarrow> j) # json_of_items toISO xs"
| "json_of_props toISO [] = []"
| "json_of_props toISO ((k, v) # kvs) =
     (case json_of toISO v of
        None \<Rightarrow> json_of_props toISO kvs
      | Some j \<Rightarrow> (k, j) # json_of_props toISO kvs)"

text \<open>A JSON value as a value at run time, which is what \<^verbatim>\<open>JSON.parse\<close> returns.\<close>

fun js_of_json :: "json \<Rightarrow> js"
  and js_of_json_items :: "json list \<Rightarrow> js list"
  and js_of_json_props :: "(string \<times> json) list \<Rightarrow> (string \<times> js) list" where
  "js_of_json JNull = JsNull"
| "js_of_json (JBool b) = JsBool b"
| "js_of_json (JNum x) = JsNum x"
| "js_of_json (JStr s) = JsStr s"
| "js_of_json (JArr xs) = JsArr (js_of_json_items xs)"
| "js_of_json (JObj kvs) = JsObj (js_of_json_props kvs)"
| "js_of_json_items [] = []"
| "js_of_json_items (x # xs) = js_of_json x # js_of_json_items xs"
| "js_of_json_props [] = []"
| "js_of_json_props ((k, v) # kvs) = (k, js_of_json v) # js_of_json_props kvs"

text \<open>
  The string keys of the store, as \<^verbatim>\<open>SETEX\<close> and \<^verbatim>\<open>GET\<close> see them. A stored string
  is the text of a JSON value and is represented by that value; with it the entry keeps the
  time (in milliseconds) at which it expires. \<^verbatim>\<open>SETEX\<close> refuses a time to live that is
  not positive (\<open>None\<close>: the command fails).
\<close>

record centry =
  cvalue :: json
  cexpire_at :: int

type_synonym cache = "string \<Rightarrow> centry option"

definition setex :: "int \<Rightarrow> string \<Rightarrow> int \<Rightarrow> json \<Rightarrow> cache \<Rightarrow> cache option" where
  "setex t key seconds v c =
     (if seconds \<le> 0 then None
      else Some (c(key \<mapsto> \<lparr>cvalue = v, cexpire_at = t + seconds * 1000\<rparr>)))"

definition redis_get :: "int \<Rightarrow> string \<Rightarrow> cache \<Rightarrow> json option" where
  "redis_get t key c =
     (case c key of
        None \<Rightarrow> None
      | Some e \<Rightarrow> if cexpire_at e \<le> t then None else Some (cvalue e))"

text \<open>
  \<^verbatim>\<open>generateCacheKey\<close>; the MD5 digest in hexadecimal is the platform's, the parameter
  \<open>md5hex\<close>.
\<close>

definition generateCacheKey :: "(string \<Rightarrow> string) \<Rightarrow> string \<Rightarrow> string \<Rightarrow> string" where
  "generateCacheKey md5hex repoUrl provider = ''scan:'' @ provider @ '':'' @ md5hex repoUrl"

text \<open>
  Reading \<^verbatim>\<open>x.vulnerabilities.length\<close> throws a TypeError when \<^verbatim>\<open>x.vulnerabilities\<close>
  is \<^verbatim>\<open>undefined\<close> or null; both cache functions do it for their debug log, inside the
  try block.
\<close>

definition js_has_length :: "js option \<Rightarrow> bool" where
  "js_has_length v = (v \<noteq> None \<and> v \<noteq> Some JsUndefined \<and> v \<noteq> Some JsNull)"

definition json_has_length :: "json option \<Rightarrow> bool" where
  "json_has_length v = (v \<noteq> None \<and> v \<noteq> Some JNull)"

text \<open>
  \<^verbatim>\<open>setScanResult\<close> at time \<open>t\<close>; \<open>result\<close> lists the properties of the result
  object, \<open>ttl\<close> is \<open>None\<close> when the argument is omitted. The answer is the new
  store and the boolean returned.
\<close>

definition setScanResult ::
  "(string \<Rightarrow> string) \<Rightarrow> (int \<Rightarrow> string) \<Rightarrow> int \<Rightarrow> int \<Rightarrow> string \<Rightarrow> string
   \<Rightarrow> (string \<times> js) list \<Rightarrow> int option \<Rightarrow> cache \<Rightarrow> cache \<times> bool" where
  "setScanResult md5hex toISO defaultTTL t repoUrl provider result ttl c =
     (let cacheKey = generateCacheKey md5hex repoUrl provider;
          cacheTTL = (case ttl of None \<Rightarrow> defaultTTL
                      | Some n \<Rightarrow> if n \<noteq> 0 then n else defaultTTL);
          serializedData = JObj (json_of_props toISO result)
      in case setex t cacheKey cacheTTL serializedData c of
           None \<Rightarrow> (c, False)
         | Some c' \<Rightarrow> (c', js_has_length (map_of result ''vulnerabilities'')))"

text \<open>\<^verbatim>\<open>getScanResult\<close> at time \<open>t\<close>; \<open>None\<close> is the null it returns.\<close>

definition getScanResult ::
  "(string \<Rightarrow> string) \<Rightarrow> int \<Rightarrow> string \<Rightarrow> string \<Rightarrow> cache \<Rightarrow> json option" where
  "getScanResult md5hex t repoUrl provider c =
     (let cacheKey = generateCacheKey md5hex repoUrl provider
      in case redis_get t cacheKey c of
           None \<Rightarrow> None
         | Some parsedData \<Rightarrow>
             if parsedData = JNull then None
             else if json_has_length (get_prop parsedData ''vulnerabilities'')
             then Some parsedData else None)"

section \<open>Scan orchestration: ScanService.scanRepository, the controller, errorHandler\<close>

text \<open>A finding as the object it is at run time: twelve properties, some undefined.\<close>

definition js_of_field :: "json option \<Rightarrow> js" where
  "js_of_field v = (case v of None \<Rightarrow> JsUndefined | Some j \<Rightarrow> js_of_json j)"

definition js_of_result :: "TruffleHogResult \<Rightarrow> js" where
  "js_of_result r =
     JsObj [(''SourceMetadata'', js_of_field (SourceMetadata r)),
            (''SourceID'', js_of_field (SourceID r)),
            (''SourceType'', js_of_field (SourceType r)),
            (''SourceName'', js_of_field (SourceName r)),
            (''DetectorType'', js_of_field (DetectorType r)),
            (''DetectorName'', js_of_field (DetectorName r)),
            (''DecoderName'', js_of_field (DecoderName r)),
            (''Verified'', js_of_field (Verified r)),
            (''Raw'', js_of_field (Raw r)),
            (''RawV2'', js_of_field (RawV2 r)),
            (''Redacted'', js_of_field (Redacted r)),
            (''ExtraData'', js_of_field (ExtraData r))]"

text \<open>
  The object literal \<^verbatim>\<open>scanResult\<close> (its properties): \<open>scanDuration\<close> is the measured
  duration and \<open>now\<close> the time of \<^verbatim>\<open>new Date()\<close>.
\<close>

definition new_ScanResult ::
  "string \<Rightarrow> string \<Rightarrow> TruffleHogResult list \<Rightarrow> int \<Rightarrow> int \<Rightarrow> (string \<times> js) list" where
  "new_ScanResult repoUrl provider vulnerabilities scanDuration now =
     [(''repoUrl'', JsStr repoUrl),
      (''provider'', JsStr provider),
      (''vulnerabilities'', JsArr (map js_of_result vulnerabilities)),
      (''metadata'', JsObj
         [(''totalVulnerabilities'', JsNum (real (length vulnerabilities))),
          (''verifiedVulnerabilities'',
             JsNum (real (length (filter (\<lambda>v. truthy (Verified v)) vulnerabilities)))),
          (''scanDuration'', JsNum (real_of_int scanDuration)),
          (''scannedAt'', JsDate now)])]"

text \<open>
  The catch block of \<^verbatim>\<open>ScanService.scanRepository\<close>: a \<^verbatim>\<open>ScanError\<close> is thrown
  again, anything else is wrapped in one. (A \<^verbatim>\<open>ValidationError\<close> would be thrown again
  too; nothing on this path throws one.)
\<close>

definition ScanService_catch :: "thrown \<Rightarrow> thrown" where
  "ScanService_catch e =
     (case e of
        ScanError m \<Rightarrow> ScanError m
      | Error m \<Rightarrow> ScanError (''Scan failed: '' @ m)
      | NonError \<Rightarrow> ScanError ''Scan failed: Unknown error'')"

text \<open>
  The cache-hit branch logs the age of the cached result and the number of its findings
  before it returns it, inside the try block. The cached result is whatever
  \<^verbatim>\<open>JSON.parse\<close> gave, so each of the reads can throw a TypeError:
  \<^verbatim>\<open>cachedResult.metadata.scannedAt\<close> when \<^verbatim>\<open>metadata\<close> is missing or null,
  \<^verbatim>\<open>new Date(...)\<close> when its argument cannot be converted to a primitive value, and
  \<^verbatim>\<open>cachedResult.vulnerabilities.length\<close> when \<^verbatim>\<open>vulnerabilities\<close> is missing or
  null. A parsed object has no callable property of its own, so its conversion falls back
  on the inherited \<^verbatim>\<open>toString\<close> and fails when a property of its own hides that one;
  the conversion of an array joins the conversions of its elements.
\<close>

fun to_primitive_throws :: "json \<Rightarrow> bool" where
  "to_primitive_throws (JObj kvs) = (map_of kvs ''toString'' \<noteq> None)"
| "to_primitive_throws (JArr xs) = list_ex to_primitive_throws xs"
| "to_primitive_throws JNull = False"
| "to_primitive_throws (JBool b) = False"
| "to_primitive_throws (JNum x) = False"
| "to_primitive_throws (JStr s) = False"

definition cached_age_throws :: "json \<Rightarrow> thrown option" where
  "cached_age_throws c =
     (case get_prop c ''metadata'' of
        None \<Rightarrow> Some (Error ''Cannot read properties of undefined (reading 'scannedAt')'')
      | Some JNull \<Rightarrow> Some (Error ''Cannot read properties of null (reading 'scannedAt')'')
      | Some m \<Rightarrow>
          (case get_prop m ''scannedAt'' of
             None \<Rightarrow> None
           | Some v \<Rightarrow>
               if to_primitive_throws v
               then Some (Error ''Cannot convert object to primitive value'') else None))"

definition cached_count_throws :: "json \<Rightarrow> thrown option" where
  "cached_count_throws c =
     (case get_prop c ''vulnerabilities'' of
        None \<Rightarrow> Some (Error ''Cannot read properties of undefined (reading 'length')'')
      | Some JNull \<Rightarrow> Some (Error ''Cannot read properties of null (reading 'length')'')
      | Some v \<Rightarrow> None)"

definition cached_log_throws :: "json \<Rightarrow> thrown option" where
  "cached_log_throws c =
     (case cached_age_throws c of Some e \<Rightarrow> Some e | None \<Rightarrow> cached_count_throws c)"

text \<open>
  \<^verbatim>\<open>ScanService.scanRepository\<close> as a function of what its collaborators answer:
  \<open>cachedResult\<close> from \<^verbatim>\<open>cacheService.getScanResult\<close> (\<open>None\<close> is null),
  \<open>isAvailable\<close> from \<^verbatim>\<open>checkTruffleHogAvailability\<close>, and how
  \<^verbatim>\<open>executeTruffleHog\<close> settles inside \<^verbatim>\<open>trufflehogService.scanRepository\<close>. A
  cached result that is truthy is returned, unless logging it throws: that error goes to
  the catch block like any other. The writes to the cache and to the database that follow
  a fresh scan are started and not awaited; they do not change the answer.
\<close>

definition ScanService_scanRepository ::
  "TruffleHogService \<Rightarrow> string \<Rightarrow> string \<Rightarrow> json option \<Rightarrow> bool
   \<Rightarrow> thrown + TruffleHogResult list \<Rightarrow> int \<Rightarrow> int \<Rightarrow> TruffleHogService \<times> (thrown + js)" where
  "ScanService_scanRepository s repoUrl provider cachedResult isAvailable outcome scanDuration now =
     (if truthy cachedResult
      then (case cached_log_throws (the cachedResult) of
              Some e \<Rightarrow> (s, Inl (ScanService_catch e))
            | None \<Rightarrow> (s, Inr (js_of_json (the cachedResult))))
      else if \<not> isAvailable
      then (s, Inl (ScanService_catch (ScanError
        ''TruffleHog scanner is not available. Please ensure it is properly installed.'')))
      else (case scanRepository s outcome of
              (s', Inl e) \<Rightarrow> (s', Inl (ScanService_catch e))
            | (s', Inr vulnerabilities) \<Rightarrow>
                (s', Inr (JsObj
                   (new_ScanResult repoUrl provider vulnerabilities scanDuration now)))))"

text \<open>
  \<^verbatim>\<open>errorHandler\<close> on the values thrown on this path: an \<^verbatim>\<open>AppError\<close> answers with
  its own status, code and message, and \<^verbatim>\<open>ScanError\<close> is the \<^verbatim>\<open>AppError\<close> with status
  500 and code \<^verbatim>\<open>SCAN_ERROR\<close>; any other error gets the defaults.
\<close>

definition errorHandler :: "thrown \<Rightarrow> handler_result" where
  "errorHandler e =
     (case e of
        ScanError m \<Rightarrow> Respond 500 ''SCAN_ERROR'' m []
      | Error m \<Rightarrow> Respond 500 ''INTERNAL_ERROR'' ''Internal server error'' []
      | NonError \<Rightarrow> Respond 500 ''INTERNAL_ERROR'' ''Internal server error'' [])"

text \<open>
  \<^verbatim>\<open>ScanController.scanRepository\<close>: the result is sent with status 200; an error goes
  to \<^verbatim>\<open>next(error)\<close> and so to \<^verbatim>\<open>errorHandler\<close>.
\<close>

definition scan_response :: "thrown + js \<Rightarrow> handler_result + js" where
  "scan_response r = (case r of Inl e \<Rightarrow> Inl (errorHandler e) | Inr v \<Rightarrow> Inr v)"

text \<open>
  The four failures of a scan request, each as the response the caller gets. The gate is
  saturated when the service \<open>s\<close> has no free slot; the other three are shown on a
  service with a free slot. A timeout is the runner's promise rejected by the timer
  handler; a process failure is that promise rejected by the exit handler for the exit code
  \<open>c\<close> and the standard error text \<open>err\<close>; the scanner is unavailable when the probe
  answers false.
\<close>

definition gate_response :: "TruffleHogService \<Rightarrow> handler_result + js" where
  "gate_response s =
     scan_response (snd (ScanService_scanRepository s ''u'' ''p'' None True (Inr []) 0 0))"

definition timeout_response ::
  "(string \<Rightarrow> json option) \<Rightarrow> TruffleHogService \<Rightarrow> handler_result + js" where
  "timeout_response JSON_parse s =
     scan_response (snd (ScanService_scanRepository s ''u'' ''p'' None True
       (executeTruffleHog JSON_parse (Inl (Error ''Command timeout''))) 0 0))"

definition exit_response ::
  "(string \<Rightarrow> json option) \<Rightarrow> TruffleHogService \<Rightarrow> int \<Rightarrow> string \<Rightarrow> handler_result + js" where
  "exit_response JSON_parse s c err =
     scan_response (snd (ScanService_scanRepository s ''u'' ''p'' None True
       (executeTruffleHog JSON_parse (Inl (Error (exit_message c err)))) 0 0))"

definition unavailable_response :: "TruffleHogService \<Rightarrow> handler_result + js" where
  "unavailable_response s =
     scan_response (snd (ScanService_scanRepository s ''u'' ''p'' None False (Inr []) 0 0))"

text \<open>
  The two platform functions at the one argument each of them gets in the concrete runs
  below: the MD5 digest of the sample URL, and the ISO form of the time 0. At any other
  argument they give the empty string.
\<close>

definition sample_md5 :: "string \<Rightarrow> string" where
  "sample_md5 s =
     (if s = ''https://github.com/org/repo'' then ''1296827bec532269d8afa19f85396290'' else [])"

definition sample_ISO :: "int \<Rightarrow> string" where
  "sample_ISO t = (if t = 0 then ''1970-01-01T00:00:00.000Z'' else [])"

text \<open>
  The machine-readable kind of an error response is its \<^verbatim>\<open>error.code\<close>; a successful
  response has none.
\<close>

definition error_kind :: "handler_result + js \<Rightarrow> string option" where
  "error_kind r = (case r of Inl h \<Rightarrow> Some (resp_code h) | Inr _ \<Rightarrow> None)"

section \<open>Properties of the concurrency gate\<close>

lemma gate_step_inv:
  assumes "currentScans s = int p" "currentScans s \<le> maxConcurrentScans s" "maxConcurrentScans s = cap"
    and "gate_step (s, p) ev = (s', p')"
  shows "currentScans s' = int p' \<and> currentScans s' \<le> maxConcurrentScans s' \<and> maxConcurrentScans s' = cap"
proof (cases ev)
  case Call
  with assms show ?thesis
    by (auto simp: scanRepository_enter_def split: if_splits)
next
  case (Settle outcome)
  with assms show ?thesis
    by (auto simp: scanRepository_settle_def Let_def split: if_splits)
qed

lemma gate_foldl_inv:
  assumes "currentScans s = int p" "currentScans s \<le> maxConcurrentScans s" "maxConcurrentScans s = cap"
    and "foldl gate_step (s, p) evs = (s', p')"
  shows "currentScans s' = int p' \<and> currentScans s' \<le> maxConcurrentScans s' \<and> maxConcurrentScans s' = cap"
  using assms
proof (induction evs arbitrary: s p)
  case Nil
  then show ?case by simp
next
  case (Cons ev evs)
  obtain s1 p1 where st: "gate_step (s, p) ev = (s1, p1)"
    by (cases "gate_step (s, p) ev")
  from gate_step_inv [OF Cons.prems(1-3) st]
  have "currentScans s1 = int p1" "currentScans s1 \<le> maxConcurrentScans s1" "maxConcurrentScans s1 = cap"
    by simp_all
  moreover from Cons.prems(4) st have "foldl gate_step (s1, p1) evs = (s', p')"
    by simp
  ultimately show ?case
    by (rule Cons.IH)
qed

text \<open>
  Claim C1. From a fresh service with a non-negative capacity, after any sequence of
  calls and settlings the counter \<^verbatim>\<open>currentScans\<close> equals the number of requests
  that hold a permit and is at most \<^verbatim>\<open>maxConcurrentScans\<close>; a request that entered
  gives its permit back exactly once when its scan settles, whatever the outcome (a result,
  a \<^verbatim>\<open>ScanError\<close>, any other error or thrown value): the counter goes down by
  exactly one, and over the whole call it is back where it was; a request rejected at the
  capacity check leaves the service unchanged.
\<close>

theorem C1_gate_permits:
  assumes "0 \<le> cap"
  shows "(case gate_run (new_TruffleHogService cap tmo) evs of
            (s, p) \<Rightarrow> currentScans s = int p \<and> currentScans s \<le> cap \<and> maxConcurrentScans s = cap)
       \<and> currentScans (fst (scanRepository_settle s0 outcome)) = currentScans s0 - 1
       \<and> (snd (scanRepository_enter s0) = Inr () \<longrightarrow>
            currentScans (fst (scanRepository_enter s0)) = currentScans s0 + 1
          \<and> currentScans s0 < maxConcurrentScans s0
          \<and> currentScans (fst (scanRepository s0 outcome)) = currentScans s0)
       \<and> (snd (scanRepository_enter s0) \<noteq> Inr () \<longrightarrow>
            maxConcurrentScans s0 \<le> currentScans s0
          \<and> fst (scanRepository_enter s0) = s0
          \<and> scanRepository s0 outcome =
              (s0, Inl (ScanError ''Maximum concurrent scans reached. Please try again later.'')))"
proof -
  obtain s p where run: "gate_run (new_TruffleHogService cap tmo) evs = (s, p)"
    by (cases "gate_run (new_TruffleHogService cap tmo) evs")
  have "currentScans s = int p \<and> currentScans s \<le> maxConcurrentScans s \<and> maxConcurrentScans s = cap"
  proof (rule gate_foldl_inv)
    show "currentScans (new_TruffleHogService cap tmo) = int 0"
      by (simp add: new_TruffleHogService_def)
    show "currentScans (new_TruffleHogService cap tmo) \<le> maxConcurrentScans (new_TruffleHogService cap tmo)"
      using assms by (simp add: new_TruffleHogService_def)
    show "maxConcurrentScans (new_TruffleHogService cap tmo) = cap"
      by (simp add: new_TruffleHogService_def)
    show "foldl gate_step (new_TruffleHogService cap tmo, 0) evs = (s, p)"
      using run by (simp add: gate_run_def)
  qed
  then have a: "case gate_run (new_TruffleHogService cap tmo) evs of
      (s, p) \<Rightarrow> currentScans s = int p \<and> currentScans s \<le> cap \<and> maxConcurrentScans s = cap"
    using run by simp
  have b: "currentScans (fst (scanRepository_settle s0 outcome)) = currentScans s0 - 1"
    by (simp add: scanRepository_settle_def Let_def)
  have c: "snd (scanRepository_enter s0) = Inr () \<longrightarrow>
            currentScans (fst (scanRepository_enter s0)) = currentScans s0 + 1
          \<and> currentScans s0 < maxConcurrentScans s0
          \<and> currentScans (fst (scanRepository s0 outcome)) = currentScans s0"
    by (simp add: scanRepository_def scanRepository_enter_def scanRepository_settle_def Let_def)
  have d: "snd (scanRepository_enter s0) \<noteq> Inr () \<longrightarrow>
            maxConcurrentScans s0 \<le> currentScans s0
          \<and> fst (scanRepository_enter s0) = s0
          \<and> scanRepository s0 outcome =
              (s0, Inl (ScanError ''Maximum concurrent scans reached. Please try again later.''))"
    by (simp add: scanRepository_def scanRepository_enter_def)
  from a b c d show ?thesis
    by blast
qed

theorem C1_gate_permits_witness:
  "(0::int) \<le> 2
   \<and> gate_run (new_TruffleHogService 2 300000)
        [Call, Call, Call :: unit gate_event]
       = ((new_TruffleHogService 2 300000)\<lparr>currentScans := 2\<rparr>, 2)
   \<and> gate_run (new_TruffleHogService 2 300000)
        [Call, Call, Call, Settle (Inl (Error ''boom'')), Call, Settle (Inr ()),
         Settle (Inl NonError), Settle (Inr ())]
       = (new_TruffleHogService 2 300000, 0)
   \<and> snd (scanRepository_enter (new_TruffleHogService 2 300000)) = Inr ()
   \<and> currentScans (fst (scanRepository_enter (new_TruffleHogService 2 300000))) = 1
   \<and> currentScans (fst (scanRepository (new_TruffleHogService 2 300000)
         (Inl (Error ''Command timeout'') :: thrown + unit))) = 0
   \<and> snd (scanRepository_enter ((new_TruffleHogService 2 300000)\<lparr>currentScans := 2\<rparr>))
       \<noteq> Inr ()
   \<and> scanRepository ((new_TruffleHogService 2 300000)\<lparr>currentScans := 2\<rparr>)
         (Inr () :: thrown + unit)
       = ((new_TruffleHogService 2 300000)\<lparr>currentScans := 2\<rparr>,
          Inl (ScanError ''Maximum concurrent scans reached. Please try again later.''))
   \<and> currentScans (fst (scanRepository_settle
         ((new_TruffleHogService 2 300000)\<lparr>currentScans := 2\<rparr>)
         (Inl (Error ''boom'') :: thrown + unit))) = 1"
proof -
  have e1: "snd (scanRepository_enter (new_TruffleHogService 2 300000)) = Inr ()"
    and e2: "snd (scanRepository_enter
        ((new_TruffleHogService 2 300000)\<lparr>currentScans := 2\<rparr>)) \<noteq> Inr ()"
    by (simp_all add: scanRepository_enter_def new_TruffleHogService_def)
  have r1: "gate_run (new_TruffleHogService 2 300000) [Call, Call, Call :: unit gate_event]
       = ((new_TruffleHogService 2 300000)\<lparr>currentScans := 2\<rparr>, 2)"
    and r2: "gate_run (new_TruffleHogService 2 300000)
        [Call, Call, Call, Settle (Inl (Error ''boom'')), Call, Settle (Inr ()),
         Settle (Inl NonError), Settle (Inr ())]
       = (new_TruffleHogService 2 300000, 0)"
    by (simp_all add: gate_run_def new_TruffleHogService_def scanRepository_enter_def
        scanRepository_settle_def)
  show ?thesis
    using e1 e2 r1 r2
      C1_gate_permits [where cap = 2 and tmo = 300000
        and evs = "[Call, Call, Call :: unit gate_event]"
        and ?s0.0 = "new_TruffleHogService 2 300000"
        and outcome = "Inl (Error ''Command timeout'') :: thrown + unit"]
      C1_gate_permits [where cap = 2 and tmo = 300000
        and evs = "[Call, Call, Call :: unit gate_event]"
        and ?s0.0 = "(new_TruffleHogService 2 300000)\<lparr>currentScans := 2\<rparr>"
        and outcome = "Inr () :: thrown + unit"]
      C1_gate_permits [where cap = 2 and tmo = 300000
        and evs = "[Call, Call, Call :: unit gate_event]"
        and ?s0.0 = "(new_TruffleHogService 2 300000)\<lparr>currentScans := 2\<rparr>"
        and outcome = "Inl (Error ''boom'') :: thrown + unit"]
    by (simp add: new_TruffleHogService_def)
qed

section \<open>Properties of request validation\<close>

lemma validate_provider_ok:
  "validate_provider provider = [] \<longleftrightarrow>
     (\<exists>p. provider = Some (JStr p) \<and> p \<in> {''github'', ''gitlab'', ''bitbucket'', ''other''})"
  by (cases provider rule: truthy.cases) (auto simp: validate_provider_def array_includes_def)

lemma validate_repoUrl_ok:
  assumes "new_URL [] = None"
  shows "validate_repoUrl new_URL repoUrl provider = [] \<longleftrightarrow>
     (\<exists>s url. repoUrl = Some (JStr s) \<and> new_URL s = Some url
        \<and> (protocol url = ''http:'' \<or> protocol url = ''https:'')
        \<and> (js_includes (hostname url) ''github.com'' \<or> js_includes (hostname url) ''gitlab.com''
            \<or> js_includes (hostname url) ''bitbucket.org'' \<or> provider = Some (JStr ''other'')))"
  using assms
  by (cases repoUrl rule: truthy.cases) (auto simp: validate_repoUrl_def split: option.splits)

text \<open>
  Claim C10. A scan request passes validation (the validator calls \<^verbatim>\<open>next()\<close>)
  if and only if \<^verbatim>\<open>provider\<close> is one of the strings github, gitlab, bitbucket, other,
  and \<^verbatim>\<open>repoUrl\<close> is a string that parses as a URL whose protocol is http: or https:
  and whose host name contains one of the substrings github.com, gitlab.com, bitbucket.org,
  unless the provider is exactly other, for which any host passes. The URL parser is any
  function that, like the platform's, rejects the empty string.
\<close>

theorem C10_validateScanRequest:
  assumes "new_URL [] = None"
  shows "validateScanRequest new_URL repoUrl provider = CallNext \<longleftrightarrow>
     (\<exists>p. provider = Some (JStr p) \<and> p \<in> {''github'', ''gitlab'', ''bitbucket'', ''other''})
   \<and> (\<exists>s url. repoUrl = Some (JStr s) \<and> new_URL s = Some url
        \<and> (protocol url = ''http:'' \<or> protocol url = ''https:'')
        \<and> (js_includes (hostname url) ''github.com'' \<or> js_includes (hostname url) ''gitlab.com''
            \<or> js_includes (hostname url) ''bitbucket.org'' \<or> provider = Some (JStr ''other'')))"
proof -
  have "validateScanRequest new_URL repoUrl provider = CallNext \<longleftrightarrow>
      validate_provider provider = [] \<and> validate_repoUrl new_URL repoUrl provider = []"
    by (auto simp: validateScanRequest_def Let_def)
  also have "\<dots> \<longleftrightarrow>
     (\<exists>p. provider = Some (JStr p) \<and> p \<in> {''github'', ''gitlab'', ''bitbucket'', ''other''})
   \<and> (\<exists>s url. repoUrl = Some (JStr s) \<and> new_URL s = Some url
        \<and> (protocol url = ''http:'' \<or> protocol url = ''https:'')
        \<and> (js_includes (hostname url) ''github.com'' \<or> js_includes (hostname url) ''gitlab.com''
            \<or> js_includes (hostname url) ''bitbucket.org'' \<or> provider = Some (JStr ''other'')))"
    by (simp only: validate_provider_ok validate_repoUrl_ok [of new_URL repoUrl provider, OF assms])
  finally show ?thesis .
qed

theorem C10_validateScanRequest_witness:
  "sample_URL [] = None
   \<and> validateScanRequest sample_URL (Some (JStr ''https://github.com.evil.example/x''))
        (Some (JStr ''gitlab'')) = CallNext
   \<and> validateScanRequest sample_URL (Some (JStr ''http://10.0.0.1/repo.git''))
        (Some (JStr ''other'')) = CallNext
   \<and> validateScanRequest sample_URL (Some (JStr ''http://10.0.0.1/repo.git''))
        (Some (JStr ''github'')) \<noteq> CallNext"
proof -
  have h: "sample_URL [] = None" by (simp add: sample_URL_def)
  have inc: "js_includes ''github.com.evil.example'' ''github.com''"
    by (simp add: js_includes_def sublist_code)
  have ninc: "\<not> js_includes ''10.0.0.1'' ''github.com''" "\<not> js_includes ''10.0.0.1'' ''gitlab.com''"
     "\<not> js_includes ''10.0.0.1'' ''bitbucket.org''"
    by (simp_all add: js_includes_def sublist_code)
  show ?thesis
    using h inc ninc
      C10_validateScanRequest [where new_URL = sample_URL, OF h, of "Some (JStr ''https://github.com.evil.example/x'')" "Some (JStr ''gitlab'')"]
      C10_validateScanRequest [where new_URL = sample_URL, OF h, of "Some (JStr ''http://10.0.0.1/repo.git'')" "Some (JStr ''other'')"]
      C10_validateScanRequest [where new_URL = sample_URL, OF h, of "Some (JStr ''http://10.0.0.1/repo.git'')" "Some (JStr ''github'')"]
    by (simp add: sample_URL_def)
qed

section \<open>Properties of the scanner command\<close>

lemma sh_words_quoted_body:
  assumes "CHR 0x00 \<notin> set u"
  shows "sh_words InSingle (Some w)
     (concat (map (\<lambda>c. if c = sq then [sq, dq, sq, dq, sq] else [c]) u) @ sq # rest)
   = sh_words Unquoted (Some (w @ u)) rest"
  using assms
proof (induction u arbitrary: w)
  case Nil
  then show ?case by simp
next
  case (Cons c u)
  then have nz: "c \<noteq> CHR 0x00" and u: "CHR 0x00 \<notin> set u"
    by auto
  show ?case
  proof (cases "c = sq")
    case True
    have "sq \<noteq> dq" by (simp add: sq_def dq_def)
    moreover have "sq \<noteq> CHR ''$''" "sq \<noteq> CHR ''`''" "sq \<noteq> CHR 0x5C" "sq \<noteq> CHR '' ''"
      "sq \<noteq> CHR 0x00"
      by (simp_all add: sq_def)
    moreover have "dq \<noteq> CHR '' ''" by (simp add: dq_def)
    ultimately show ?thesis
      using True Cons.IH [OF u, of "w @ [sq]"] by (simp add: sh_add_def sh_open_def)
  next
    case False
    then show ?thesis
      using nz Cons.IH [OF u, of "w @ [c]"] by (simp add: sh_add_def)
  qed
qed

lemma sh_words_escapeShellArg:
  assumes "CHR 0x00 \<notin> set u"
  shows "sh_words Unquoted w (escapeShellArg u @ rest)
   = sh_words Unquoted (Some ((case w of None \<Rightarrow> [] | Some v \<Rightarrow> v) @ u)) rest"
proof -
  have "sq \<noteq> CHR '' ''" by (simp add: sq_def)
  then show ?thesis
    using sh_words_quoted_body [OF assms, of "case w of None \<Rightarrow> [] | Some v \<Rightarrow> v" rest]
    by (cases w) (simp_all add: escapeShellArg_def sh_open_def)
qed

lemma sh_words_flags:
  "sh_words Unquoted (Some w) '' --json --no-verification --concurrency=1''
   = Some [w, ''--json'', ''--no-verification'', ''--concurrency=1'']"
  by (simp add: sh_special_def sq_def dq_def sh_add_def sh_finish_def)

lemma sh_words_git:
  assumes "CHR 0x00 \<notin> set u"
  shows "sh_words Unquoted None (''trufflehog git '' @ escapeShellArg u @ rest)
   = map_option (\<lambda>ws. ''trufflehog'' # ''git'' # ws) (sh_words Unquoted (Some u) rest)"
  by (simp add: sh_words_escapeShellArg [OF assms] sh_special_def sq_def dq_def sh_add_def
      sh_finish_def option.map_comp comp_def)

lemma sh_words_github:
  assumes "CHR 0x00 \<notin> set u"
  shows "sh_words Unquoted None (''trufflehog github --repo='' @ escapeShellArg u @ rest)
   = map_option (\<lambda>ws. ''trufflehog'' # ''github'' # ws)
       (sh_words Unquoted (Some (''--repo='' @ u)) rest)"
  by (simp add: sh_words_escapeShellArg [OF assms] sh_special_def sq_def dq_def sh_add_def
      sh_finish_def option.map_comp comp_def)

lemma sh_words_gitlab:
  assumes "CHR 0x00 \<notin> set u"
  shows "sh_words Unquoted None (''trufflehog gitlab --repo='' @ escapeShellArg u @ rest)
   = map_option (\<lambda>ws. ''trufflehog'' # ''gitlab'' # ws)
       (sh_words Unquoted (Some (''--repo='' @ u)) rest)"
  by (simp add: sh_words_escapeShellArg [OF assms] sh_special_def sq_def dq_def sh_add_def
      sh_finish_def option.map_comp comp_def)

lemma buildTruffleHogCommand_cases:
  "buildTruffleHogCommand repoUrl =
     (if js_includes repoUrl ''gitlab.com''
      then ''trufflehog gitlab --repo='' @ escapeShellArg repoUrl
           @ '' --json --no-verification --concurrency=1''
      else if js_includes repoUrl ''github.com''
      then ''trufflehog github --repo='' @ escapeShellArg repoUrl
           @ '' --json --no-verification --concurrency=1''
      else ''trufflehog git '' @ escapeShellArg repoUrl
           @ '' --json --no-verification --concurrency=1'')"
  by (simp add: buildTruffleHogCommand_def subcommand_of_def)

text \<open>The command line holds a zero byte exactly when the URL does.\<close>

lemma zero_byte_escapeShellArg:
  "CHR 0x00 \<in> set (escapeShellArg u) \<longleftrightarrow> CHR 0x00 \<in> set u"
  by (auto simp: escapeShellArg_def sq_def dq_def split: if_splits)

lemma zero_byte_command:
  "CHR 0x00 \<in> set (buildTruffleHogCommand u) \<longleftrightarrow> CHR 0x00 \<in> set u"
  by (simp add: buildTruffleHogCommand_cases zero_byte_escapeShellArg)

lemma sh_words_command:
  assumes "CHR 0x00 \<notin> set repoUrl"
  shows "sh_words Unquoted None (buildTruffleHogCommand repoUrl) =
       Some (if js_includes repoUrl ''gitlab.com''
             then [''trufflehog'', ''gitlab'', ''--repo='' @ repoUrl,
                   ''--json'', ''--no-verification'', ''--concurrency=1'']
             else if js_includes repoUrl ''github.com''
             then [''trufflehog'', ''github'', ''--repo='' @ repoUrl,
                   ''--json'', ''--no-verification'', ''--concurrency=1'']
             else [''trufflehog'', ''git'', repoUrl,
                   ''--json'', ''--no-verification'', ''--concurrency=1''])"
  unfolding buildTruffleHogCommand_cases
  by (simp only: sh_words_git [OF assms] sh_words_github [OF assms] sh_words_gitlab [OF assms]
      sh_words_flags option.map if_True if_False split: if_split) simp

text \<open>
  Claim C2, as the code has it. For every repository URL the code builds one command
  line for the shell: the program name, the subcommand (gitlab when the text of the URL
  contains gitlab.com, otherwise github when it contains github.com, otherwise git), the
  URL between single quotes as \<^verbatim>\<open>escapeShellArg\<close> writes it (after \<^verbatim>\<open>--repo=\<close>, or
  alone for git), and the three flags; and it hands that line to \<^verbatim>\<open>exec\<close>. When the URL
  holds a zero byte, \<^verbatim>\<open>exec\<close> throws and no process is started. When the URL has none
  but the line is too long for one argument, spawning fails and no process is started. In
  every other case \<^verbatim>\<open>exec\<close> starts a shell on that line, and whatever characters the URL
  holds the shell splits the line into exactly the words trufflehog, the subcommand, the
  URL itself (with \<^verbatim>\<open>--repo=\<close> before it, or alone), --json, --no-verification,
  --concurrency=1.
\<close>

theorem C2_command_line:
  "buildTruffleHogCommand repoUrl =
       (if js_includes repoUrl ''gitlab.com''
        then ''trufflehog gitlab --repo='' @ escapeShellArg repoUrl
             @ '' --json --no-verification --concurrency=1''
        else if js_includes repoUrl ''github.com''
        then ''trufflehog github --repo='' @ escapeShellArg repoUrl
             @ '' --json --no-verification --concurrency=1''
        else ''trufflehog git '' @ escapeShellArg repoUrl
             @ '' --json --no-verification --concurrency=1'')
   \<and> (CHR 0x00 \<in> set repoUrl \<longrightarrow>
        executeTruffleHog_call repoUrl = Exec_throws
      \<and> exec_argv (buildTruffleHogCommand repoUrl) = None)
   \<and> (CHR 0x00 \<notin> set repoUrl \<and> max_arg_strlen \<le> length (buildTruffleHogCommand repoUrl) \<longrightarrow>
        executeTruffleHog_call repoUrl = Spawn_fails
      \<and> exec_argv (buildTruffleHogCommand repoUrl) = None)
   \<and> (CHR 0x00 \<notin> set repoUrl \<and> length (buildTruffleHogCommand repoUrl) < max_arg_strlen \<longrightarrow>
        executeTruffleHog_call repoUrl = Exec (buildTruffleHogCommand repoUrl)
      \<and> exec_argv (buildTruffleHogCommand repoUrl) =
          Some (if js_includes repoUrl ''gitlab.com''
                then [''trufflehog'', ''gitlab'', ''--repo='' @ repoUrl,
                      ''--json'', ''--no-verification'', ''--concurrency=1'']
                else if js_includes repoUrl ''github.com''
                then [''trufflehog'', ''github'', ''--repo='' @ repoUrl,
                      ''--json'', ''--no-verification'', ''--concurrency=1'']
                else [''trufflehog'', ''git'', repoUrl,
                      ''--json'', ''--no-verification'', ''--concurrency=1'']))"
proof -
  let ?cmd = "buildTruffleHogCommand repoUrl"
  have a: "CHR 0x00 \<in> set repoUrl \<longrightarrow>
        executeTruffleHog_call repoUrl = Exec_throws \<and> exec_argv ?cmd = None"
    by (simp add: executeTruffleHog_call_def executeWithTimeout_call_def exec_argv_def
        zero_byte_command)
  have b: "CHR 0x00 \<notin> set repoUrl \<and> max_arg_strlen \<le> length ?cmd \<longrightarrow>
        executeTruffleHog_call repoUrl = Spawn_fails \<and> exec_argv ?cmd = None"
    by (simp add: executeTruffleHog_call_def executeWithTimeout_call_def exec_argv_def
        zero_byte_command)
  have c: "CHR 0x00 \<notin> set repoUrl \<and> length ?cmd < max_arg_strlen \<longrightarrow>
        executeTruffleHog_call repoUrl = Exec ?cmd
      \<and> exec_argv ?cmd =
          Some (if js_includes repoUrl ''gitlab.com''
                then [''trufflehog'', ''gitlab'', ''--repo='' @ repoUrl,
                      ''--json'', ''--no-verification'', ''--concurrency=1'']
                else if js_includes repoUrl ''github.com''
                then [''trufflehog'', ''github'', ''--repo='' @ repoUrl,
                      ''--json'', ''--no-verification'', ''--concurrency=1'']
                else [''trufflehog'', ''git'', repoUrl,
                      ''--json'', ''--no-verification'', ''--concurrency=1''])"
  proof (intro impI)
    assume h: "CHR 0x00 \<notin> set repoUrl \<and> length ?cmd < max_arg_strlen"
    then have call: "executeWithTimeout_call ?cmd = Exec ?cmd"
      by (simp add: executeWithTimeout_call_def zero_byte_command)
    from h have nz: "CHR 0x00 \<notin> set repoUrl"
      by simp
    show "executeTruffleHog_call repoUrl = Exec ?cmd
      \<and> exec_argv ?cmd =
          Some (if js_includes repoUrl ''gitlab.com''
                then [''trufflehog'', ''gitlab'', ''--repo='' @ repoUrl,
                      ''--json'', ''--no-verification'', ''--concurrency=1'']
                else if js_includes repoUrl ''github.com''
                then [''trufflehog'', ''github'', ''--repo='' @ repoUrl,
                      ''--json'', ''--no-verification'', ''--concurrency=1'']
                else [''trufflehog'', ''git'', repoUrl,
                      ''--json'', ''--no-verification'', ''--concurrency=1''])"
      using call sh_words_command [OF nz]
      by (simp add: executeTruffleHog_call_def exec_argv_def)
  qed
  from buildTruffleHogCommand_cases [of repoUrl] a b c show ?thesis
    by (intro conjI)
qed

theorem C2_command_line_witness:
  "CHR 0x00 \<notin> set ''https://gitlab.com/org/it's''
   \<and> executeTruffleHog_call ''https://gitlab.com/org/it's''
       = Exec (buildTruffleHogCommand ''https://gitlab.com/org/it's'')
   \<and> exec_argv (buildTruffleHogCommand ''https://gitlab.com/org/it's'')
       = Some [''trufflehog'', ''gitlab'', ''--repo=https://gitlab.com/org/it's'',
               ''--json'', ''--no-verification'', ''--concurrency=1'']
   \<and> CHR 0x00 \<in> set (''https://example.org/a'' @ [CHR 0x00])
   \<and> executeTruffleHog_call (''https://example.org/a'' @ [CHR 0x00]) = Exec_throws
   \<and> exec_argv (buildTruffleHogCommand (''https://example.org/a'' @ [CHR 0x00])) = None
   \<and> CHR 0x00 \<notin> set (replicate 131072 (CHR ''a''))
   \<and> executeTruffleHog_call (replicate 131072 (CHR ''a'')) = Spawn_fails"
proof -
  let ?u1 = "''https://gitlab.com/org/it's''"
  let ?u2 = "''https://example.org/a'' @ [CHR 0x00]"
  let ?u3 = "replicate 131072 (CHR ''a'')"
  have inc: "js_includes ?u1 ''gitlab.com''"
    by (simp add: js_includes_def sublist_code)
  have nz1: "CHR 0x00 \<notin> set ?u1"
    by simp
  have len: "length (buildTruffleHogCommand ?u1) < max_arg_strlen"
    by (simp add: buildTruffleHogCommand_cases inc escapeShellArg_def max_arg_strlen_def
        sq_def dq_def)
  have z2: "CHR 0x00 \<in> set ?u2"
    by simp
  have no: "\<not> js_includes ?u3 ''gitlab.com''" "\<not> js_includes ?u3 ''github.com''"
    using set_mono_sublist [of "''gitlab.com''" ?u3] set_mono_sublist [of "''github.com''" ?u3]
    by (auto simp: js_includes_def)
  have nz3: "CHR 0x00 \<notin> set ?u3"
    by simp
  have big: "max_arg_strlen \<le> length (buildTruffleHogCommand ?u3)"
    by (simp add: buildTruffleHogCommand_cases no escapeShellArg_def max_arg_strlen_def sq_def)
  note c1 = C2_command_line [of ?u1, THEN conjunct2, THEN conjunct2, THEN conjunct2, THEN mp,
      OF conjI [OF nz1 len]]
  note c2 = C2_command_line [of ?u2, THEN conjunct2, THEN conjunct1, THEN mp, OF z2]
  note c3 = C2_command_line [of ?u3, THEN conjunct2, THEN conjunct2, THEN conjunct1, THEN mp,
      OF conjI [OF nz3 big]]
  have a1: "executeTruffleHog_call ?u1 = Exec (buildTruffleHogCommand ?u1)"
    using c1 by (rule conjunct1)
  have b1: "exec_argv (buildTruffleHogCommand ?u1)
       = Some [''trufflehog'', ''gitlab'', ''--repo=https://gitlab.com/org/it's'',
               ''--json'', ''--no-verification'', ''--concurrency=1'']"
    using c1 [THEN conjunct2] inc by (simp only: if_True) simp
  have a3: "executeTruffleHog_call ?u3 = Spawn_fails"
    using c3 by (rule conjunct1)
  from nz1 a1 b1 z2 c2 nz3 a3 show ?thesis
    by (intro conjI) (erule conjunct1 conjunct2 | assumption)+
qed

text \<open>
  The claim as written fails: the scanner is not started with an argument vector. For
  \<^verbatim>\<open>https://github.com/org/repo\<close> the call is \<^verbatim>\<open>exec\<close> of a single command line
  into which the quoted URL has been interpolated. Nor does the subcommand come from the
  host: a URL on an unrecognized host whose path mentions github.com is scanned in github
  mode, not in the generic git mode.
\<close>

theorem C2_argument_vector_counterexample:
  "executeTruffleHog_call ''https://github.com/org/repo'' \<noteq>
     ExecFile ''trufflehog'' [''github'', ''--repo=https://github.com/org/repo'',
       ''--json'', ''--no-verification'', ''--concurrency=1'']
   \<and> executeTruffleHog_call ''https://github.com/org/repo'' =
     Exec (''trufflehog github --repo='' @ [sq] @ ''https://github.com/org/repo'' @ [sq]
           @ '' --json --no-verification --concurrency=1'')
   \<and> subcommand_of ''https://example.org/mirror/github.com/repo'' = ''github''"
  by (simp add: executeTruffleHog_call_def executeWithTimeout_call_def max_arg_strlen_def
      buildTruffleHogCommand_def subcommand_of_def js_includes_def sublist_code
      escapeShellArg_def sq_def)

section \<open>Properties of the rate limiter\<close>

lemma ceil_seconds_pos: "0 < w \<Longrightarrow> 0 < ceil_seconds w"
  unfolding ceil_seconds_def by linarith

lemma redis_live_upd_None [simp]: "redis_live t (db(k := None)) k = None"
  by (simp add: redis_live_def)

lemma redis_live_upd_Some [simp]:
  "redis_live t (db(k \<mapsto> e)) k =
     (case expire_at e of None \<Rightarrow> Some e | Some d \<Rightarrow> if d \<le> t then None else Some e)"
  by (simp add: redis_live_def)

text \<open>The transaction on a key that is absent or has expired.\<close>

lemma rate_limit_multi_absent:
  assumes "redis_live t db key = None"
  shows "rate_limit_multi opts t key now db =
           (db(key := None), [Slot_value 0, Slot_value 0, Slot_value 0])"
  using assms
  by (simp add: rate_limit_multi_def zremrangebyscore_def zcard_def expire_def redis_live_def
      Let_def)

text \<open>The transaction on a key that is there: prune, count, refresh the expiry.\<close>

lemma rate_limit_multi_present:
  assumes "redis_live t db key = Some e"
  shows "rate_limit_multi opts t key now db =
     (let keep = filter (\<lambda>(m, s). \<not> (0 \<le> s \<and> s \<le> now - windowMs opts)) (zmembers e);
          removed = int (length (zmembers e)) - int (length keep)
      in if keep = []
         then (db(key := None), [Slot_value removed, Slot_value 0, Slot_value 0])
         else (db(key \<mapsto> e\<lparr>zmembers := keep,
                              expire_at := Some (t + ceil_seconds (windowMs opts) * 1000)\<rparr>),
               [Slot_value removed, Slot_value (int (length keep)), Slot_value 1]))"
proof -
  from assms have dbk: "db key = Some e"
    by (auto simp: redis_live_def split: option.splits if_splits)
  from assms have live: "\<And>d. expire_at e = Some d \<Longrightarrow> \<not> d \<le> t"
    by (auto simp: redis_live_def dbk split: option.splits if_splits)
  show ?thesis
    using assms dbk live
    by (auto simp: rate_limit_multi_def zremrangebyscore_def zcard_def expire_def redis_live_def
        Let_def split: option.splits)
qed

lemma middleware_absent:
  assumes "redis_live now db (rate_limit_key c) = None"
  shows "middleware opts c now r db =
     (if 0 \<ge> maxRequests opts
      then (db((rate_limit_key c) := None), too_many_requests)
      else (db((rate_limit_key c) \<mapsto> \<lparr>zmembers = [((now, r), now)], expire_at = None\<rparr>),
            CallNext))"
  by (simp add: middleware_def rate_limit_multi_absent [OF assms] middleware_after_exec_def
      currentCount_def middleware_after_zadd_def zadd_def redis_live_def)

lemma middleware_present:
  assumes "redis_live now db (rate_limit_key c) = Some e"
    and "0 < windowMs opts"
  shows "middleware opts c now r db =
     (let key = rate_limit_key c;
          keep = filter (\<lambda>(m, s). \<not> (0 \<le> s \<and> s \<le> now - windowMs opts)) (zmembers e);
          e' = e\<lparr>zmembers := keep,
                 expire_at := Some (now + ceil_seconds (windowMs opts) * 1000)\<rparr>
      in if int (length keep) \<ge> maxRequests opts
         then (if keep = [] then db(key := None) else db(key \<mapsto> e'), too_many_requests)
         else if keep = []
         then (db(key \<mapsto> \<lparr>zmembers = [((now, r), now)], expire_at = None\<rparr>), CallNext)
         else (db(key \<mapsto> e'\<lparr>zmembers :=
                 ((now, r), now) # filter (\<lambda>(m', s). m' \<noteq> (now, r)) keep\<rparr>), CallNext))"
  using ceil_seconds_pos [OF assms(2)]
  by (simp add: middleware_def rate_limit_multi_present [OF assms(1)] middleware_after_exec_def
      currentCount_def middleware_after_zadd_def zadd_def redis_live_def Let_def)

text \<open>
  One sequential call is one step of the sliding-window algorithm: the time stamps that
  survive are those not in the closed range from 0 to \<open>now - windowMs\<close>; the call is
  admitted exactly when fewer than \<open>maxRequests\<close> survive; a refused call leaves the
  survivors and records nothing; an admitted call records \<open>now\<close>.
\<close>

lemma middleware_sliding_window:
  assumes "0 < windowMs opts"
  shows "(snd (middleware opts c now r db) = CallNext \<longleftrightarrow>
            int (length (filter (\<lambda>s. \<not> (0 \<le> s \<and> s \<le> now - windowMs opts))
                   (recorded now c db))) < maxRequests opts)
       \<and> (snd (middleware opts c now r db) \<noteq> CallNext \<longleftrightarrow>
            snd (middleware opts c now r db) = too_many_requests)
       \<and> (snd (middleware opts c now r db) = too_many_requests \<longrightarrow>
            recorded now c (fst (middleware opts c now r db)) =
              filter (\<lambda>s. \<not> (0 \<le> s \<and> s \<le> now - windowMs opts)) (recorded now c db))
       \<and> (snd (middleware opts c now r db) = CallNext \<longrightarrow>
            recorded now c (fst (middleware opts c now r db)) =
              now # filter (\<lambda>s. \<not> (0 \<le> s \<and> s \<le> now - windowMs opts))
                (case redis_live now db (rate_limit_key c) of
                   None \<Rightarrow> []
                 | Some e \<Rightarrow> map snd (filter (\<lambda>(m, s). m \<noteq> (now, r)) (zmembers e))))"
proof (cases "redis_live now db (rate_limit_key c)")
  case None
  show ?thesis
    by (simp add: middleware_absent [OF None] recorded_def None too_many_requests_def)
next
  case (Some e)
  note pos = ceil_seconds_pos [OF assms]
  show ?thesis
    using pos
    by (auto simp: middleware_present [OF Some assms] recorded_def Some
        too_many_requests_def Let_def case_prod_unfold filter_map comp_def conj_commute
        filter_empty_conv)
qed

text \<open>
  Claim C7. Sequential calls for one client follow the sliding-window algorithm. For any
  window and limit, a call is admitted exactly when fewer than \<^verbatim>\<open>maxRequests\<close> recorded
  time stamps survive the pruning; a refused call records nothing; an admitted call
  records \<^verbatim>\<open>now\<close>. With \<^verbatim>\<open>windowMs = 60000\<close> and \<^verbatim>\<open>maxRequests = 3\<close>, starting
  with nothing recorded for the client: three calls within one second (with distinct set
  members) are all admitted, a fourth call in that second is answered 429 and leaves the
  three recorded time stamps as they are, and a call made once the first time stamp is
  60000 ms old is admitted again.
\<close>

theorem C7_sliding_window:
  assumes "0 \<le> t1" "t1 \<le> t2" "t2 \<le> t3" "t3 \<le> t4" "t4 < t1 + 1000" "t1 + 60000 \<le> t5"
    and "distinct [(t1, r1), (t2, r2), (t3, r3)]"
    and "db0 (rate_limit_key c) = None"
    and "0 < windowMs opts"
  shows "(let o3 = \<lparr>windowMs = 60000, maxRequests = 3\<rparr>;
              (d1, a1) = middleware o3 c t1 r1 db0;
              (d2, a2) = middleware o3 c t2 r2 d1;
              (d3, a3) = middleware o3 c t3 r3 d2;
              (d4, a4) = middleware o3 c t4 r4 d3;
              (d5, a5) = middleware o3 c t5 r5 d4
          in a1 = CallNext \<and> a2 = CallNext \<and> a3 = CallNext
             \<and> recorded t4 c d3 = [t3, t2, t1]
             \<and> a4 = too_many_requests \<and> recorded t4 c d4 = [t3, t2, t1]
             \<and> a5 = CallNext)
       \<and> (snd (middleware opts k now r db) = CallNext \<longleftrightarrow>
            int (length (filter (\<lambda>s. \<not> (0 \<le> s \<and> s \<le> now - windowMs opts))
                   (recorded now k db))) < maxRequests opts)
       \<and> (snd (middleware opts k now r db) \<noteq> CallNext \<longleftrightarrow>
            snd (middleware opts k now r db) = too_many_requests)
       \<and> (snd (middleware opts k now r db) = too_many_requests \<longrightarrow>
            recorded now k (fst (middleware opts k now r db)) =
              filter (\<lambda>s. \<not> (0 \<le> s \<and> s \<le> now - windowMs opts)) (recorded now k db))
       \<and> (snd (middleware opts k now r db) = CallNext \<longrightarrow>
            recorded now k (fst (middleware opts k now r db)) =
              now # filter (\<lambda>s. \<not> (0 \<le> s \<and> s \<le> now - windowMs opts))
                (case redis_live now db (rate_limit_key k) of
                   None \<Rightarrow> []
                 | Some e \<Rightarrow> map snd (filter (\<lambda>(m, s). m \<noteq> (now, r)) (zmembers e))))"
proof -
  define o3 where "o3 = \<lparr>windowMs = 60000, maxRequests = 3\<rparr>"
  define key where "key = rate_limit_key c"
  define e1 where "e1 = \<lparr>zmembers = [((t1, r1), t1)], expire_at = None\<rparr>"
  define e2 where "e2 = \<lparr>zmembers = [((t2, r2), t2), ((t1, r1), t1)],
    expire_at = Some (t2 + 60000)\<rparr>"
  define e3 where "e3 = \<lparr>zmembers = [((t3, r3), t3), ((t2, r2), t2), ((t1, r1), t1)],
    expire_at = Some (t3 + 60000)\<rparr>"
  define e4 where "e4 = \<lparr>zmembers = [((t3, r3), t3), ((t2, r2), t2), ((t1, r1), t1)],
    expire_at = Some (t4 + 60000)\<rparr>"
  have w: "0 < windowMs o3" "windowMs o3 = 60000" "maxRequests o3 = 3"
    "ceil_seconds 60000 = 60"
    by (simp_all add: o3_def ceil_seconds_def)
  have live0: "redis_live t1 db0 (rate_limit_key c) = None"
    using assms(8) by (simp add: redis_live_def)
  have s1: "middleware o3 c t1 r1 db0 = (db0(key \<mapsto> e1), CallNext)"
    by (simp add: middleware_absent [OF live0] w e1_def key_def)
  have live1: "redis_live t2 (db0(key \<mapsto> e1)) (rate_limit_key c) = Some e1"
    by (simp add: key_def e1_def)
  have s2: "middleware o3 c t2 r2 (db0(key \<mapsto> e1)) = (db0(key \<mapsto> e2), CallNext)"
    using assms(1-7)
    by (subst middleware_present [OF live1 w(1)]) (simp add: w e1_def e2_def key_def Let_def)
  have live2: "redis_live t3 (db0(key \<mapsto> e2)) (rate_limit_key c) = Some e2"
    using assms(1-6) by (simp add: key_def e2_def)
  have s3: "middleware o3 c t3 r3 (db0(key \<mapsto> e2)) = (db0(key \<mapsto> e3), CallNext)"
    using assms(1-7)
    by (subst middleware_present [OF live2 w(1)]) (simp add: w e2_def e3_def key_def Let_def)
  have live3: "redis_live t4 (db0(key \<mapsto> e3)) (rate_limit_key c) = Some e3"
    using assms(1-6) by (simp add: key_def e3_def)
  have s4: "middleware o3 c t4 r4 (db0(key \<mapsto> e3)) = (db0(key \<mapsto> e4), too_many_requests)"
    using assms(1-7)
    by (subst middleware_present [OF live3 w(1)]) (simp add: w e3_def e4_def key_def Let_def)
  have rec3: "recorded t4 c (db0(key \<mapsto> e3)) = [t3, t2, t1]"
    using assms(1-6) by (simp add: recorded_def key_def e3_def)
  have rec4: "recorded t4 c (db0(key \<mapsto> e4)) = [t3, t2, t1]"
    by (simp add: recorded_def key_def e4_def)
  have s5: "snd (middleware o3 c t5 r5 (db0(key \<mapsto> e4))) = CallNext"
  proof (cases "t4 + 60000 \<le> t5")
    case True
    then have "redis_live t5 (db0(key \<mapsto> e4)) (rate_limit_key c) = None"
      by (simp add: key_def e4_def)
    then show ?thesis
      by (subst middleware_absent) (simp_all add: w)
  next
    case False
    then have live4: "redis_live t5 (db0(key \<mapsto> e4)) (rate_limit_key c) = Some e4"
      by (simp add: key_def e4_def)
    show ?thesis
      using assms(1-6)
      by (subst middleware_present [OF live4 w(1)]) (simp add: w e4_def Let_def)
  qed
  have scen: "(let o3 = \<lparr>windowMs = 60000, maxRequests = 3\<rparr>;
              (d1, a1) = middleware o3 c t1 r1 db0;
              (d2, a2) = middleware o3 c t2 r2 d1;
              (d3, a3) = middleware o3 c t3 r3 d2;
              (d4, a4) = middleware o3 c t4 r4 d3;
              (d5, a5) = middleware o3 c t5 r5 d4
          in a1 = CallNext \<and> a2 = CallNext \<and> a3 = CallNext
             \<and> recorded t4 c d3 = [t3, t2, t1]
             \<and> a4 = too_many_requests \<and> recorded t4 c d4 = [t3, t2, t1]
             \<and> a5 = CallNext)"
    using s5 unfolding o3_def [symmetric] Let_def s1 s2 s3 s4 prod.case rec3 rec4
    by (simp add: case_prod_unfold)
  from scen middleware_sliding_window [OF assms(9), of k now r db] show ?thesis
    by (rule conjI)
qed

theorem C7_sliding_window_witness:
  "(0::int) \<le> 1000 \<and> (1000::int) \<le> 1200 \<and> (1200::int) \<le> 1900 \<and> (1900::int) \<le> 1950
   \<and> (1950::int) < 1000 + 1000 \<and> (1000::int) + 60000 \<le> 61000
   \<and> (let o3 = \<lparr>windowMs = 60000, maxRequests = 3\<rparr>;
            (d1, a1) = middleware o3 ''clientA'' 1000 (1/8) (\<lambda>_. None);
            (d2, a2) = middleware o3 ''clientA'' 1200 (2/8) d1;
            (d3, a3) = middleware o3 ''clientA'' 1900 (3/8) d2;
            (d4, a4) = middleware o3 ''clientA'' 1950 (4/8) d3;
            (d5, a5) = middleware o3 ''clientA'' 61000 (5/8) d4
        in a1 = CallNext \<and> a2 = CallNext \<and> a3 = CallNext
           \<and> recorded 1950 ''clientA'' d3 = [1900, 1200, 1000]
           \<and> a4 = too_many_requests \<and> recorded 1950 ''clientA'' d4 = [1900, 1200, 1000]
           \<and> a5 = CallNext)
   \<and> snd (middleware \<lparr>windowMs = 60000, maxRequests = 0\<rparr> ''clientA'' 5 0 (\<lambda>_. None))
       = too_many_requests"
proof -
  have r: "recorded 5 ''clientA'' (\<lambda>_. None) = []"
    by (simp add: recorded_def redis_live_def)
  from C7_sliding_window [where ?t1.0 = 1000 and ?t2.0 = 1200 and ?t3.0 = 1900
      and ?t4.0 = 1950 and ?t5.0 = 61000 and ?r1.0 = "1/8" and ?r2.0 = "2/8" and ?r3.0 = "3/8"
      and ?r4.0 = "4/8" and ?r5.0 = "5/8" and ?db0.0 = "\<lambda>_. None" and c = "''clientA''"
      and opts = "\<lparr>windowMs = 60000, maxRequests = 0\<rparr>" and k = "''clientA''"
      and now = 5 and r = 0 and db = "\<lambda>_. None"] r
  show ?thesis
    by auto
qed

text \<open>
  Claim C8, as the code has it. The middleware calls \<^verbatim>\<open>next()\<close> when
  \<^verbatim>\<open>multi.exec()\<close> is rejected, when it resolves to null, when its answer has no
  reply for \<^verbatim>\<open>ZCARD\<close> or an error in that reply, and when \<^verbatim>\<open>redis.zadd\<close> is
  rejected. The replies of \<^verbatim>\<open>ZREMRANGEBYSCORE\<close> and \<^verbatim>\<open>EXPIRE\<close> are not read: an
  error in them alone changes nothing, and the request is answered 429 exactly when the
  \<^verbatim>\<open>ZCARD\<close> reply holds a count at or above the limit.
\<close>

theorem C8_fail_open:
  "middleware_outcome opts Rejected z = CallNext
   \<and> middleware_outcome opts (Resolved None) z = CallNext
   \<and> middleware_outcome opts (Resolved (Some [])) z = CallNext
   \<and> middleware_outcome opts (Resolved (Some [s0])) z = CallNext
   \<and> middleware_outcome opts (Resolved (Some (s0 # Slot_error # ss))) z = CallNext
   \<and> (middleware_after_exec opts ex = Record \<longrightarrow> middleware_outcome opts ex Rejected = CallNext)
   \<and> (middleware_outcome opts ex z \<noteq> CallNext \<longleftrightarrow>
        (\<exists>s n rs. ex = Resolved (Some (s # Slot_value n # rs)) \<and> maxRequests opts \<le> n))"
proof -
  have a: "middleware_outcome opts Rejected z = CallNext"
    "middleware_outcome opts (Resolved None) z = CallNext"
    "middleware_outcome opts (Resolved (Some [])) z = CallNext"
    "middleware_outcome opts (Resolved (Some [s0])) z = CallNext"
    by (simp_all add: middleware_outcome_def middleware_after_exec_def currentCount_def)
  have b: "middleware_outcome opts (Resolved (Some (s0 # Slot_error # ss))) z = CallNext"
    by (cases z)
      (simp_all add: middleware_outcome_def middleware_after_exec_def currentCount_def
        middleware_after_zadd_def)
  have c: "middleware_after_exec opts ex = Record \<longrightarrow>
      middleware_outcome opts ex Rejected = CallNext"
    by (simp add: middleware_outcome_def middleware_after_zadd_def)
  have d: "middleware_outcome opts ex z \<noteq> CallNext \<longleftrightarrow>
        (\<exists>s n rs. ex = Resolved (Some (s # Slot_value n # rs)) \<and> maxRequests opts \<le> n)"
    by (cases z)
      (auto simp: middleware_outcome_def middleware_after_exec_def currentCount_def
        middleware_after_zadd_def too_many_requests_def
        split: settled.splits option.splits list.splits slot.splits)
  from a b c d show ?thesis
    by (intro conjI)
qed

theorem C8_fail_open_witness:
  "middleware_after_exec \<lparr>windowMs = 60000, maxRequests = 3\<rparr>
     (Resolved (Some [Slot_value 0, Slot_value 2, Slot_value 1])) = Record
   \<and> middleware_outcome \<lparr>windowMs = 60000, maxRequests = 3\<rparr>
     (Resolved (Some [Slot_value 0, Slot_value 2, Slot_value 1])) Rejected = CallNext
   \<and> middleware_outcome \<lparr>windowMs = 60000, maxRequests = 3\<rparr>
     (Resolved (Some [Slot_error, Slot_error, Slot_value 0])) (Resolved 1) = CallNext
   \<and> middleware_outcome \<lparr>windowMs = 60000, maxRequests = 3\<rparr>
     (Resolved (Some [Slot_value 0, Slot_value 3, Slot_value 1])) (Resolved 1) =
       too_many_requests"
  using C8_fail_open [of "\<lparr>windowMs = 60000, maxRequests = 3\<rparr>" "Resolved 1"
      Slot_error "[Slot_value 0]" "Resolved (Some [Slot_value 0, Slot_value 2, Slot_value 1])"]
  by (simp add: middleware_after_exec_def currentCount_def middleware_outcome_def
      too_many_requests_def)

text \<open>
  The claim as written fails: a store failure does not always let the request through.
  When the pruning and the expiry fail inside the transaction while \<^verbatim>\<open>ZCARD\<close> still
  answers with a count at the limit, the request is answered 429.
\<close>

theorem C8_store_failure_counterexample:
  "middleware_outcome \<lparr>windowMs = 60000, maxRequests = 3\<rparr>
     (Resolved (Some [Slot_error, Slot_value 3, Slot_error])) (Resolved 1) = too_many_requests
   \<and> too_many_requests \<noteq> CallNext"
  by (simp add: middleware_outcome_def middleware_after_exec_def currentCount_def
      too_many_requests_def)

text \<open>
  A request that runs its two pieces back to back is one sequential call of the
  middleware.
\<close>

lemma middleware_as_schedule:
  "run_schedule opts [(0, now), (0, now)] (db, [Arrived c now r])
   = (fst (middleware opts c now r db), [Finished (snd (middleware opts c now r db))])"
  by (simp add: middleware_def request_step_def Let_def
      split: prod.splits after_exec.splits)

text \<open>
  Claim C3 does not hold of the code. Only the pruning, the count and the expiry run as
  one transaction; \<^verbatim>\<open>redis.zadd\<close> is sent after a further await. With
  \<^verbatim>\<open>maxRequests = 1\<close>, two requests of one client that arrive together and whose
  transactions both run before either \<^verbatim>\<open>zadd\<close> are both admitted, and two time stamps
  are recorded in the same window. Run one after the other, the second is refused.
\<close>

theorem C3_concurrent_overshoot:
  "snd (run_schedule \<lparr>windowMs = 60000, maxRequests = 1\<rparr>
         [(0, 1000), (1, 1000), (0, 1000), (1, 1000)]
         (\<lambda>_. None, [Arrived ''clientA'' 1000 (1/4), Arrived ''clientA'' 1000 (3/4)]))
     = [Finished CallNext, Finished CallNext]
   \<and> recorded 1000 ''clientA''
       (fst (run_schedule \<lparr>windowMs = 60000, maxRequests = 1\<rparr>
         [(0, 1000), (1, 1000), (0, 1000), (1, 1000)]
         (\<lambda>_. None, [Arrived ''clientA'' 1000 (1/4), Arrived ''clientA'' 1000 (3/4)])))
     = [1000, 1000]
   \<and> snd (run_schedule \<lparr>windowMs = 60000, maxRequests = 1\<rparr>
         [(0, 1000), (0, 1000), (1, 1000), (1, 1000)]
         (\<lambda>_. None, [Arrived ''clientA'' 1000 (1/4), Arrived ''clientA'' 1000 (3/4)]))
     = [Finished CallNext, Finished too_many_requests]"
  by (simp add: request_step_def rate_limit_multi_def zremrangebyscore_def zcard_def
      expire_def zadd_def redis_live_def middleware_after_exec_def currentCount_def
      middleware_after_zadd_def ceil_seconds_def recorded_def rate_limit_key_def Let_def)

section \<open>Properties of the result parser\<close>

lemma is_ws_nl [simp]: "is_ws nl"
  by (simp add: is_ws_def nl_def)

lemma trim_Nil_iff: "trim l = [] \<longleftrightarrow> (\<forall>c\<in>set l. is_ws c)"
proof
  assume "trim l = []"
  then have "dropWhile is_ws (rev (dropWhile is_ws l)) = []"
    by (simp add: trim_def)
  then have "\<forall>c\<in>set (dropWhile is_ws l). is_ws c"
    by (simp add: dropWhile_eq_Nil_conv)
  then have "dropWhile is_ws l = []"
    using hd_dropWhile [of is_ws l] hd_in_set [of "dropWhile is_ws l"] by blast
  then show "\<forall>c\<in>set l. is_ws c"
    by (simp add: dropWhile_eq_Nil_conv)
next
  assume "\<forall>c\<in>set l. is_ws c"
  then show "trim l = []"
    by (auto simp: trim_def dest: set_dropWhileD)
qed

text \<open>Removing white space at an end of a line does not change whether it is blank.\<close>

lemma blank_dropWhile:
  "(\<forall>c\<in>set (dropWhile is_ws l). is_ws c) \<longleftrightarrow> (\<forall>c\<in>set l. is_ws c)"
proof
  assume a: "\<forall>c\<in>set (dropWhile is_ws l). is_ws c"
  have "dropWhile is_ws l = []"
    using a hd_dropWhile [of is_ws l] hd_in_set [of "dropWhile is_ws l"] by blast
  then show "\<forall>c\<in>set l. is_ws c"
    by (simp add: dropWhile_eq_Nil_conv)
next
  assume "\<forall>c\<in>set l. is_ws c"
  then show "\<forall>c\<in>set (dropWhile is_ws l). is_ws c"
    by (auto dest: set_dropWhileD)
qed

lemma trim_dropWhile_Nil_iff: "trim (dropWhile is_ws l) = [] \<longleftrightarrow> trim l = []"
  by (simp only: trim_Nil_iff blank_dropWhile)

lemma trim_rev_Nil_iff: "trim (rev l) = [] \<longleftrightarrow> trim l = []"
  by (simp add: trim_Nil_iff)

lemma trim_trim_Nil_iff: "trim (trim l) = [] \<longleftrightarrow> trim l = []"
proof -
  have "(\<forall>c\<in>set (trim l). is_ws c) \<longleftrightarrow> (\<forall>c\<in>set l. is_ws c)"
    unfolding trim_def
    using blank_dropWhile [of "rev (dropWhile is_ws l)"] blank_dropWhile [of l] by simp
  then show ?thesis
    by (simp only: trim_Nil_iff)
qed

lemma trim_Nil [simp]: "trim [] = []"
  by (simp add: trim_def)

lemma js_join_Cons:
  "js_join sep (l # ls) = (if ls = [] then l else l @ sep @ js_join sep ls)"
  by (cases ls) simp_all

lemma js_join_snoc:
  "js_join sep (ls @ [l]) = (if ls = [] then l else js_join sep ls @ sep @ l)"
  by (induction sep ls rule: js_join.induct) (simp_all add: js_join_Cons)

lemma rev_js_join: "rev (js_join [c] ls) = js_join [c] (map rev (rev ls))"
  by (induction ls) (simp_all add: js_join_Cons js_join_snoc)

lemma split_nl_not_Nil [simp]: "split_nl s \<noteq> []"
  by (induction s) (auto split: list.splits)

lemma split_nl_line: "nl \<notin> set l \<Longrightarrow> split_nl l = [l]"
  by (induction l) auto

lemma split_nl_append: "nl \<notin> set l \<Longrightarrow> split_nl (l @ nl # rest) = l # split_nl rest"
  by (induction l) auto

lemma split_nl_js_join:
  assumes "ls \<noteq> []" "\<forall>l\<in>set ls. nl \<notin> set l"
  shows "split_nl (js_join [nl] ls) = ls"
  using assms
proof (induction ls)
  case Nil
  then show ?case by simp
next
  case (Cons l ls)
  then show ?case
    by (cases "ls = []") (simp_all add: js_join_Cons split_nl_line split_nl_append)
qed

text \<open>The lines of a string hold no line feed, and joining them gives the string back.\<close>

lemma split_nl_no_nl: "l \<in> set (split_nl s) \<Longrightarrow> nl \<notin> set l"
proof (induction s arbitrary: l)
  case Nil
  then show ?case by simp
next
  case (Cons c cs)
  obtain x xs where x: "split_nl cs = x # xs"
    by (cases "split_nl cs") simp_all
  with Cons show ?case
    by (cases "c = nl") auto
qed

lemma js_join_split_nl: "js_join [nl] (split_nl s) = s"
proof (induction s)
  case Nil
  then show ?case by simp
next
  case (Cons c cs)
  obtain x xs where x: "split_nl cs = x # xs"
    by (cases "split_nl cs") simp_all
  with Cons show ?case
    by (cases "c = nl") (auto simp: js_join_Cons split: if_splits)
qed

lemma split_nl_rev: "split_nl (rev s) = map rev (rev (split_nl s))"
proof -
  have "rev s = js_join [nl] (map rev (rev (split_nl s)))"
    using rev_js_join [of nl "split_nl s"] by (simp add: js_join_split_nl)
  moreover have "split_nl (js_join [nl] (map rev (rev (split_nl s)))) = map rev (rev (split_nl s))"
    by (rule split_nl_js_join) (auto dest: split_nl_no_nl)
  ultimately show ?thesis
    by simp
qed

text \<open>
  The lines of a string without its leading white space: the leading blank lines are gone
  and the first line that is not blank has lost its leading white space.
\<close>

lemma split_nl_dropWhile:
  "split_nl (dropWhile is_ws s) =
     (case dropWhile (\<lambda>l. \<forall>c\<in>set l. is_ws c) (split_nl s) of
        [] \<Rightarrow> [[]]
      | l # ls \<Rightarrow> dropWhile is_ws l # ls)"
proof (induction s)
  case Nil
  then show ?case by simp
next
  case (Cons c cs)
  obtain x xs where x: "split_nl cs = x # xs"
    by (cases "split_nl cs") simp_all
  show ?case
  proof (cases "c = nl")
    case True
    with Cons show ?thesis by simp
  next
    case False
    show ?thesis
    proof (cases "is_ws c")
      case True
      with False Cons x show ?thesis
        by (cases "\<forall>c\<in>set x. is_ws c") auto
    next
      case nws: False
      with False x show ?thesis by simp
    qed
  qed
qed

lemma concat_map_dropWhile:
  assumes "\<And>x. B x \<Longrightarrow> f x = []"
  shows "concat (map f (dropWhile B xs)) = concat (map f xs)"
  using assms by (induction xs) auto

text \<open>
  A function of the lines that gives nothing for a blank line, summed over the lines of a
  string: removing the white space at the start of the string changes the sum no more
  than removing it from each line does.
\<close>

lemma concat_map_split_nl_dropWhile:
  assumes blank: "\<And>l. (\<forall>c\<in>set l. is_ws c) \<Longrightarrow> g l = []"
    and stable: "\<forall>l\<in>set (split_nl s). g (dropWhile is_ws l) = g l"
  shows "concat (map g (split_nl (dropWhile is_ws s))) = concat (map g (split_nl s))"
proof -
  let ?B = "\<lambda>l. \<forall>c\<in>set l. is_ws c"
  have eq: "concat (map g (dropWhile ?B (split_nl s))) = concat (map g (split_nl s))"
    by (rule concat_map_dropWhile) (rule blank)
  show ?thesis
  proof (cases "dropWhile ?B (split_nl s)")
    case Nil
    then have "split_nl (dropWhile is_ws s) = [[]]"
      unfolding split_nl_dropWhile by (simp only: list.case)
    with eq Nil blank [of "[]"] show ?thesis
      by (simp del: dropWhile_eq_Nil_conv)
  next
    case (Cons l ls)
    then have "l \<in> set (split_nl s)"
      using set_dropWhileD [of l ?B "split_nl s"] by simp
    with stable have "g (dropWhile is_ws l) = g l"
      by blast
    moreover have "split_nl (dropWhile is_ws s) = dropWhile is_ws l # ls"
      unfolding split_nl_dropWhile Cons by (simp only: list.case)
    ultimately show ?thesis
      using eq Cons by simp
  qed
qed

lemma concat_map_split_nl_rev_dropWhile:
  assumes blank: "\<And>l. (\<forall>c\<in>set l. is_ws c) \<Longrightarrow> g l = []"
    and stable: "\<forall>l\<in>set (split_nl s). g (rev (dropWhile is_ws (rev l))) = g l"
  shows "concat (map g (split_nl (rev (dropWhile is_ws (rev s))))) = concat (map g (split_nl s))"
proof -
  let ?g = "\<lambda>l. rev (g (rev l))"
  have flip: "concat (map g (map rev (rev xs))) = rev (concat (map ?g xs))" for xs
    by (induction xs) simp_all
  have "concat (map ?g (split_nl (dropWhile is_ws (rev s)))) = concat (map ?g (split_nl (rev s)))"
  proof (rule concat_map_split_nl_dropWhile)
    fix l :: string
    assume "\<forall>c\<in>set l. is_ws c"
    then show "rev (g (rev l)) = []"
      using blank [of "rev l"] by simp
  next
    show "\<forall>l\<in>set (split_nl (rev s)). rev (g (rev (dropWhile is_ws l))) = rev (g (rev l))"
      using stable by (auto simp: split_nl_rev)
  qed
  then have "rev (concat (map ?g (split_nl (dropWhile is_ws (rev s)))))
      = rev (concat (map ?g (split_nl (rev s))))"
    by simp
  then have "concat (map g (map rev (rev (split_nl (dropWhile is_ws (rev s))))))
      = concat (map g (map rev (rev (split_nl (rev s)))))"
    by (simp only: flip)
  then show ?thesis
    by (simp add: split_nl_rev [of "dropWhile is_ws (rev s)"] split_nl_rev [of s] rev_map)
qed

lemma concat_map_split_nl_trim:
  assumes blank: "\<And>l. (\<forall>c\<in>set l. is_ws c) \<Longrightarrow> g l = []"
    and stable: "\<forall>l\<in>set (split_nl s).
        g (dropWhile is_ws l) = g l \<and> g (rev (dropWhile is_ws (rev l))) = g l \<and> g (trim l) = g l"
  shows "concat (map g (split_nl (trim s))) = concat (map g (split_nl s))"
proof -
  let ?B = "\<lambda>l. \<forall>c\<in>set l. is_ws c"
  let ?s = "dropWhile is_ws s"
  have r: "\<forall>l\<in>set (split_nl ?s). g (rev (dropWhile is_ws (rev l))) = g l"
  proof (cases "dropWhile ?B (split_nl s)")
    case Nil
    then have "split_nl (dropWhile is_ws s) = [[]]"
      unfolding split_nl_dropWhile by (simp only: list.case)
    then show ?thesis
      by simp
  next
    case (Cons l ls)
    have shape: "split_nl (dropWhile is_ws s) = dropWhile is_ws l # ls"
      unfolding split_nl_dropWhile Cons by (simp only: list.case)
    have sub: "set (l # ls) \<subseteq> set (split_nl s)"
      using set_dropWhileD [of _ ?B "split_nl s"] Cons by auto
    then have "g (trim l) = g l" "g (dropWhile is_ws l) = g l"
      using stable by auto
    then have "g (rev (dropWhile is_ws (rev (dropWhile is_ws l)))) = g (dropWhile is_ws l)"
      by (simp add: trim_def)
    moreover have "\<forall>x\<in>set ls. g (rev (dropWhile is_ws (rev x))) = g x"
      using sub stable by auto
    ultimately show ?thesis
      by (simp add: shape)
  qed
  have "concat (map g (split_nl (rev (dropWhile is_ws (rev ?s))))) = concat (map g (split_nl ?s))"
  proof (rule concat_map_split_nl_rev_dropWhile)
    fix l :: string
    assume "\<forall>c\<in>set l. is_ws c"
    then show "g l = []"
      by (rule blank)
  next
    show "\<forall>l\<in>set (split_nl ?s). g (rev (dropWhile is_ws (rev l))) = g l"
      by (rule r)
  qed
  moreover have "concat (map g (split_nl ?s)) = concat (map g (split_nl s))"
    using stable by (intro concat_map_split_nl_dropWhile blank) auto
  ultimately show ?thesis
    by (simp add: trim_def)
qed

text \<open>What the loop adds to its two accumulators, line by line.\<close>

lemma parse_lines_acc:
  "parse_lines P ls (rs, ws) =
     (rs @ concat (map (\<lambda>l. if trim l = [] then []
                           else (case parse_line P l of Inr r \<Rightarrow> [r] | Inl _ \<Rightarrow> [])) ls),
      ws @ concat (map (\<lambda>l. if trim l = [] then []
                           else (case parse_line P l of Inr r \<Rightarrow> [] | Inl _ \<Rightarrow> [take 200 l])) ls))"
  by (induction ls arbitrary: rs ws) (auto split: sum.splits)

lemma parseTruffleHogOutput_lines:
  "parseTruffleHogOutput P output =
     (concat (map (\<lambda>l. if trim l = [] then []
                        else (case parse_line P l of Inr r \<Rightarrow> [r] | Inl _ \<Rightarrow> []))
         (split_nl (trim output))),
      concat (map (\<lambda>l. if trim l = [] then []
                        else (case parse_line P l of Inr r \<Rightarrow> [] | Inl _ \<Rightarrow> [take 200 l]))
         (split_nl (trim output))))"
  by (cases "trim output = []") (simp_all add: parseTruffleHogOutput_def parse_lines_acc)

text \<open>A line gives a finding exactly when it decodes to a value other than null.\<close>

lemma parse_line_Inr_iff:
  "(\<exists>r. parse_line P l = Inr r) \<longleftrightarrow> P l \<noteq> None \<and> P l \<noteq> Some JNull"
  by (auto simp: parse_line_def make_result_def split: option.splits)

lemma parse_line_Inl: "parse_line P l = Inl e \<Longrightarrow> P l = None \<or> P l = Some JNull"
  by (auto simp: parse_line_def make_result_def split: option.splits if_splits)

lemma parse_line_Inr: "parse_line P l = Inr r \<Longrightarrow> P l \<noteq> None \<and> P l \<noteq> Some JNull"
  by (auto simp: parse_line_def make_result_def split: option.splits if_splits)

lemma length_findings:
  "length (concat (map (\<lambda>l. if trim l = [] then []
                        else (case parse_line P l of Inr r \<Rightarrow> [r] | Inl _ \<Rightarrow> [])) xs))
   = length (filter (\<lambda>l. trim l \<noteq> [] \<and> P l \<noteq> None \<and> P l \<noteq> Some JNull) xs)"
  by (induction xs) (auto split: sum.splits dest: parse_line_Inl parse_line_Inr)

lemma length_warnings:
  "length (concat (map (\<lambda>l. if trim l = [] then []
                        else (case parse_line P l of Inr r \<Rightarrow> [] | Inl _ \<Rightarrow> [h l])) xs))
   = length (filter (\<lambda>l. trim l \<noteq> [] \<and> (P l = None \<or> P l = Some JNull)) xs)"
  by (induction xs) (auto split: sum.splits dest: parse_line_Inl parse_line_Inr)

lemma warnings_filter:
  "concat (map (\<lambda>l. if trim l = [] then []
                     else (case parse_line P l of Inr r \<Rightarrow> [] | Inl _ \<Rightarrow> [take 200 l])) xs)
   = map (take 200) (filter (\<lambda>l. trim l \<noteq> [] \<and> (P l = None \<or> P l = Some JNull)) xs)"
  by (induction xs) (auto split: sum.splits dest: parse_line_Inl parse_line_Inr)

text \<open>
  Claim C5, as the code has it, for every decoder \<open>P\<close> in the place of
  \<^verbatim>\<open>JSON.parse\<close> and every output. The parser never fails. It looks at the lines of
  the output trimmed as a whole, skips the blank ones, and handles each of the others by
  itself: a line that decodes to a value other than null gives one finding, in the order
  of the lines; a line that fails to decode, or decodes to null, gives no finding and one
  warning with its first 200 characters, and the lines after it are parsed all the same.
  So the number of findings is the number of lines of the trimmed output that are not blank
  and decode to a value other than null. If moreover the decoder gives every line of the
  output as it stands the answer it gives the line without the white space at its start,
  at its end, or at both (as \<^verbatim>\<open>JSON.parse\<close> does for lines indented with spaces or
  tabs or ending in a carriage return), then the same holds of the lines of the output as
  it stands: N lines that are not blank and decode to a value other than null give exactly
  N findings, and every other line that is not blank gives one warning, whatever their
  number and position.
\<close>

theorem C5_parse_findings:
  "length (fst (parseTruffleHogOutput P output))
     = length (filter (\<lambda>l. trim l \<noteq> [] \<and> P l \<noteq> None \<and> P l \<noteq> Some JNull)
                 (split_nl (trim output)))
   \<and> fst (parseTruffleHogOutput P output)
     = concat (map (\<lambda>l. if trim l = [] then []
                         else (case parse_line P l of Inr r \<Rightarrow> [r] | Inl e \<Rightarrow> []))
                 (split_nl (trim output)))
   \<and> snd (parseTruffleHogOutput P output)
     = map (take 200) (filter (\<lambda>l. trim l \<noteq> [] \<and> (P l = None \<or> P l = Some JNull))
                 (split_nl (trim output)))
   \<and> ((\<forall>l\<in>set (split_nl output).
          P (dropWhile is_ws l) = P l \<and> P (rev (dropWhile is_ws (rev l))) = P l
          \<and> P (trim l) = P l) \<longrightarrow>
        length (fst (parseTruffleHogOutput P output))
          = length (filter (\<lambda>l. trim l \<noteq> [] \<and> P l \<noteq> None \<and> P l \<noteq> Some JNull)
                      (split_nl output))
      \<and> fst (parseTruffleHogOutput P output)
          = concat (map (\<lambda>l. if trim l = [] then []
                              else (case parse_line P l of Inr r \<Rightarrow> [r] | Inl e \<Rightarrow> []))
                      (split_nl output))
      \<and> length (snd (parseTruffleHogOutput P output))
          = length (filter (\<lambda>l. trim l \<noteq> [] \<and> (P l = None \<or> P l = Some JNull))
                      (split_nl output)))"
proof -
  let ?f = "\<lambda>l. if trim l = [] then []
                  else (case parse_line P l of Inr r \<Rightarrow> [r] | Inl e \<Rightarrow> [])"
  let ?w = "\<lambda>l. if trim l = [] then []
                  else (case parse_line P l of Inr r \<Rightarrow> [] | Inl e \<Rightarrow> [take 200 l])"
  let ?u = "\<lambda>l. if trim l = [] then []
                  else (case parse_line P l of Inr r \<Rightarrow> [] | Inl e \<Rightarrow> [()])"
  have fst_eq: "fst (parseTruffleHogOutput P output) = concat (map ?f (split_nl (trim output)))"
    and snd_eq: "snd (parseTruffleHogOutput P output) = concat (map ?w (split_nl (trim output)))"
    by (simp_all add: parseTruffleHogOutput_lines)
  have 1: "length (fst (parseTruffleHogOutput P output))
     = length (filter (\<lambda>l. trim l \<noteq> [] \<and> P l \<noteq> None \<and> P l \<noteq> Some JNull)
                 (split_nl (trim output)))"
    unfolding fst_eq by (rule length_findings)
  have 3: "snd (parseTruffleHogOutput P output)
     = map (take 200) (filter (\<lambda>l. trim l \<noteq> [] \<and> (P l = None \<or> P l = Some JNull))
                 (split_nl (trim output)))"
    unfolding snd_eq by (rule warnings_filter)
  have 4: "length (fst (parseTruffleHogOutput P output))
          = length (filter (\<lambda>l. trim l \<noteq> [] \<and> P l \<noteq> None \<and> P l \<noteq> Some JNull)
                      (split_nl output))
      \<and> fst (parseTruffleHogOutput P output) = concat (map ?f (split_nl output))
      \<and> length (snd (parseTruffleHogOutput P output))
          = length (filter (\<lambda>l. trim l \<noteq> [] \<and> (P l = None \<or> P l = Some JNull))
                      (split_nl output))"
    if stable: "\<forall>l\<in>set (split_nl output).
          P (dropWhile is_ws l) = P l \<and> P (rev (dropWhile is_ws (rev l))) = P l
          \<and> P (trim l) = P l"
  proof -
    have rs: "trim (rev (dropWhile is_ws (rev l))) = [] \<longleftrightarrow> trim l = []" for l
      using trim_dropWhile_Nil_iff [of "rev l"] by (simp add: trim_rev_Nil_iff)
    have f: "concat (map ?f (split_nl (trim output))) = concat (map ?f (split_nl output))"
    proof (rule concat_map_split_nl_trim)
      fix l :: string
      assume "\<forall>c\<in>set l. is_ws c"
      then show "?f l = []"
        by (simp add: trim_Nil_iff)
    next
      show "\<forall>l\<in>set (split_nl output). ?f (dropWhile is_ws l) = ?f l
          \<and> ?f (rev (dropWhile is_ws (rev l))) = ?f l \<and> ?f (trim l) = ?f l"
        using stable
        by (simp add: parse_line_def trim_dropWhile_Nil_iff rs trim_trim_Nil_iff)
    qed
    have u: "concat (map ?u (split_nl (trim output))) = concat (map ?u (split_nl output))"
    proof (rule concat_map_split_nl_trim)
      fix l :: string
      assume "\<forall>c\<in>set l. is_ws c"
      then show "?u l = []"
        by (simp add: trim_Nil_iff)
    next
      show "\<forall>l\<in>set (split_nl output). ?u (dropWhile is_ws l) = ?u l
          \<and> ?u (rev (dropWhile is_ws (rev l))) = ?u l \<and> ?u (trim l) = ?u l"
        using stable
        by (simp add: parse_line_def trim_dropWhile_Nil_iff rs trim_trim_Nil_iff)
    qed
    have wl: "length (concat (map ?w xs)) = length (concat (map ?u xs))" for xs
      by (simp only: length_warnings)
    have "length (snd (parseTruffleHogOutput P output)) = length (concat (map ?u (split_nl output)))"
      unfolding snd_eq wl u ..
    then have c: "length (snd (parseTruffleHogOutput P output))
          = length (filter (\<lambda>l. trim l \<noteq> [] \<and> (P l = None \<or> P l = Some JNull))
                      (split_nl output))"
      by (simp only: length_warnings)
    have b: "fst (parseTruffleHogOutput P output) = concat (map ?f (split_nl output))"
      unfolding fst_eq f ..
    then have a: "length (fst (parseTruffleHogOutput P output))
          = length (filter (\<lambda>l. trim l \<noteq> [] \<and> P l \<noteq> None \<and> P l \<noteq> Some JNull)
                      (split_nl output))"
      by (simp only: length_findings)
    from a b c show ?thesis
      by (intro conjI)
  qed
  have 5: "(\<forall>l\<in>set (split_nl output).
          P (dropWhile is_ws l) = P l \<and> P (rev (dropWhile is_ws (rev l))) = P l
          \<and> P (trim l) = P l) \<longrightarrow>
        length (fst (parseTruffleHogOutput P output))
          = length (filter (\<lambda>l. trim l \<noteq> [] \<and> P l \<noteq> None \<and> P l \<noteq> Some JNull)
                      (split_nl output))
      \<and> fst (parseTruffleHogOutput P output) = concat (map ?f (split_nl output))
      \<and> length (snd (parseTruffleHogOutput P output))
          = length (filter (\<lambda>l. trim l \<noteq> [] \<and> (P l = None \<or> P l = Some JNull))
                      (split_nl output))"
    by (rule impI) (rule 4)
  from 1 fst_eq 3 5 show ?thesis
    by (intro conjI)
qed

theorem C5_parse_findings_witness:
  \<open>length (fst (parseTruffleHogOutput sample_JSON
      (js_join [nl] [''{"DetectorName":"AWS","Verified":true}'', ''not json at all'',
                     ''{}'' @ [CHR 0x0D], ''null'', ''{"DetectorName":"Slack"}'', '''']))) = 3
   \<and> length (snd (parseTruffleHogOutput sample_JSON
      (js_join [nl] [''{"DetectorName":"AWS","Verified":true}'', ''not json at all'',
                     ''{}'' @ [CHR 0x0D], ''null'', ''{"DetectorName":"Slack"}'', '''']))) = 2\<close>
proof -
  let ?ls = \<open>[''{"DetectorName":"AWS","Verified":true}'', ''not json at all'',
              ''{}'' @ [CHR 0x0D], ''null'', ''{"DetectorName":"Slack"}'', '''']\<close>
  have sp: "split_nl (js_join [nl] ?ls) = ?ls"
    by (rule split_nl_js_join) (simp_all add: nl_def)
  have hyp: "\<forall>l\<in>set (split_nl (js_join [nl] ?ls)).
          sample_JSON (dropWhile is_ws l) = sample_JSON l
          \<and> sample_JSON (rev (dropWhile is_ws (rev l))) = sample_JSON l
          \<and> sample_JSON (trim l) = sample_JSON l"
    unfolding sp by (simp add: sample_JSON_def trim_def is_ws_def)
  note th = C5_parse_findings [of sample_JSON "js_join [nl] ?ls",
      THEN conjunct2, THEN conjunct2, THEN conjunct2, THEN mp, OF hyp]
  have a: "length (fst (parseTruffleHogOutput sample_JSON (js_join [nl] ?ls))) = 3"
    using th [THEN conjunct1] unfolding sp by (simp add: sample_JSON_def trim_def is_ws_def)
  have b: "length (snd (parseTruffleHogOutput sample_JSON (js_join [nl] ?ls))) = 2"
    using th [THEN conjunct2, THEN conjunct2] unfolding sp by (simp add: sample_JSON_def trim_def is_ws_def)
  from a b show ?thesis
    by (intro conjI)
qed

text \<open>
  The claim as written fails, in both directions. The output of two lines, \<^verbatim>\<open>{}\<close>
  and \<^verbatim>\<open>{}\<close> followed by a vertical tab, has one line that decodes and one that does
  not, for the decoder rejects the vertical tab; the parser trims the whole output first
  and returns two findings and no warning. The output of the two lines \<^verbatim>\<open>{}\<close> and
  \<^verbatim>\<open>null\<close> has two lines that decode; the parser returns one finding and a warning.
\<close>

theorem C5_line_count_counterexample:
  "sample_JSON ''{}'' = Some (JObj [])
   \<and> sample_JSON (''{}'' @ [CHR 0x0B]) = None
   \<and> length (fst (parseTruffleHogOutput sample_JSON (''{}'' @ [nl] @ ''{}'' @ [CHR 0x0B]))) = 2
   \<and> snd (parseTruffleHogOutput sample_JSON (''{}'' @ [nl] @ ''{}'' @ [CHR 0x0B])) = []
   \<and> sample_JSON ''null'' = Some JNull
   \<and> length (fst (parseTruffleHogOutput sample_JSON (''{}'' @ [nl] @ ''null''))) = 1
   \<and> snd (parseTruffleHogOutput sample_JSON (''{}'' @ [nl] @ ''null'')) = [''null'']"
proof -
  have t1: "trim (''{}'' @ [nl] @ ''{}'' @ [CHR 0x0B]) = ''{}'' @ [nl] @ ''{}''"
    by (simp add: trim_def is_ws_def nl_def)
  have t2: "trim (''{}'' @ [nl] @ ''null'') = ''{}'' @ [nl] @ ''null''"
    by (simp add: trim_def is_ws_def nl_def)
  have s1: "split_nl (''{}'' @ [nl] @ ''{}'') = [''{}'', ''{}'']"
    by (simp add: nl_def)
  have s2: "split_nl (''{}'' @ [nl] @ ''null'') = [''{}'', ''null'']"
    by (simp add: nl_def)
  have l: "trim ''{}'' = ''{}''" "trim ''null'' = ''null''"
    by (simp_all add: trim_def is_ws_def)
  show ?thesis
    by (simp add: parseTruffleHogOutput_def t1 t2 s1 s2 l parse_line_def make_result_def
        sample_JSON_def del: append.simps)
qed

section \<open>Properties of the process runner\<close>









section \<open>Properties of the cache layer\<close>

lemma json_of_js_of_json:
  "json_of toISO (js_of_json j) = Some j"
  "json_of_items toISO (js_of_json_items js) = js"
  "json_of_props toISO (js_of_json_props kvs) = kvs"
  by (induction j and js and kvs rule: js_of_json_js_of_json_items_js_of_json_props.induct)
    simp_all

lemma map_of_json_of_props:
  assumes "map_of props k = Some v" "json_of toISO v = Some j"
  shows "map_of (json_of_props toISO props) k = Some j"
  using assms
proof (induction props)
  case Nil
  then show ?case by simp
next
  case (Cons p props)
  obtain k' v' where p: "p = (k', v')"
    by (cases p)
  show ?case
    using Cons p by (cases "json_of toISO v'") (auto split: if_splits)
qed

text \<open>
  Claim C6, as the code has it. Let the result object have an array under
  \<^verbatim>\<open>vulnerabilities\<close> and let the time to live in force (the argument, or the default
  when the argument is omitted or 0) be positive. Then \<^verbatim>\<open>setScanResult\<close> returns true,
  and \<^verbatim>\<open>getScanResult\<close> for the same \<^verbatim>\<open>(repoUrl, provider)\<close> returns, at every time
  before the entry expires, the JSON image of the result: the result with each
  \<^verbatim>\<open>Date\<close> replaced by its ISO string and each undefined property left out. From the
  expiry time on it returns null. A result that holds only JSON values comes back equal to
  itself.
\<close>

theorem C6_cache_round_trip:
  assumes "map_of result ''vulnerabilities'' = Some (JsArr vs)"
    and "cacheTTL = (case ttl of None \<Rightarrow> defaultTTL | Some n \<Rightarrow> if n \<noteq> 0 then n else defaultTTL)"
    and "0 < cacheTTL"
  shows "snd (setScanResult md5hex toISO defaultTTL t repoUrl provider result ttl c) = True
       \<and> (t \<le> t' \<and> t' < t + cacheTTL * 1000 \<longrightarrow>
            getScanResult md5hex t' repoUrl provider
              (fst (setScanResult md5hex toISO defaultTTL t repoUrl provider result ttl c))
            = Some (JObj (json_of_props toISO result)))
       \<and> (t + cacheTTL * 1000 \<le> t' \<longrightarrow>
            getScanResult md5hex t' repoUrl provider
              (fst (setScanResult md5hex toISO defaultTTL t repoUrl provider result ttl c))
            = None)
       \<and> js_of_json (JObj (json_of_props toISO (js_of_json_props kvs)))
            = JsObj (js_of_json_props kvs)"
proof -
  let ?key = "generateCacheKey md5hex repoUrl provider"
  let ?v = "JObj (json_of_props toISO result)"
  have set_eq: "setScanResult md5hex toISO defaultTTL t repoUrl provider result ttl c
      = (c(?key \<mapsto> \<lparr>cvalue = ?v, cexpire_at = t + cacheTTL * 1000\<rparr>), True)"
    using assms by (simp add: setScanResult_def setex_def js_has_length_def Let_def)
  have "json_of toISO (JsArr vs) = Some (JArr (json_of_items toISO vs))"
    by simp
  from map_of_json_of_props [OF assms(1) this]
  have len: "json_has_length (get_prop ?v ''vulnerabilities'')"
    by (simp add: get_prop_def json_has_length_def)
  have a: "t \<le> t' \<and> t' < t + cacheTTL * 1000 \<longrightarrow>
      getScanResult md5hex t' repoUrl provider
        (fst (setScanResult md5hex toISO defaultTTL t repoUrl provider result ttl c)) = Some ?v"
    using len by (simp add: set_eq getScanResult_def redis_get_def Let_def)
  have b: "t + cacheTTL * 1000 \<le> t' \<longrightarrow>
      getScanResult md5hex t' repoUrl provider
        (fst (setScanResult md5hex toISO defaultTTL t repoUrl provider result ttl c)) = None"
    by (simp add: set_eq getScanResult_def redis_get_def Let_def)
  have d: "js_of_json (JObj (json_of_props toISO (js_of_json_props kvs)))
            = JsObj (js_of_json_props kvs)"
    by (simp add: json_of_js_of_json)
  from set_eq a b d show ?thesis
    by simp
qed

theorem C6_cache_round_trip_witness:
  "snd (setScanResult sample_md5 sample_ISO 86400 1000 ''https://github.com/org/repo'' ''github''
          [(''repoUrl'', JsStr ''https://github.com/org/repo''), (''vulnerabilities'', JsArr [])]
          (Some 60) (\<lambda>_. None)) = True
   \<and> getScanResult sample_md5 1000 ''https://github.com/org/repo'' ''github''
        (fst (setScanResult sample_md5 sample_ISO 86400 1000 ''https://github.com/org/repo''
          ''github''
          [(''repoUrl'', JsStr ''https://github.com/org/repo''), (''vulnerabilities'', JsArr [])]
          (Some 60) (\<lambda>_. None)))
      = Some (JObj [(''repoUrl'', JStr ''https://github.com/org/repo''),
                    (''vulnerabilities'', JArr [])])
   \<and> getScanResult sample_md5 61000 ''https://github.com/org/repo'' ''github''
        (fst (setScanResult sample_md5 sample_ISO 86400 1000 ''https://github.com/org/repo''
          ''github''
          [(''repoUrl'', JsStr ''https://github.com/org/repo''), (''vulnerabilities'', JsArr [])]
          (Some 60) (\<lambda>_. None)))
      = None"
  using
    C6_cache_round_trip [where result = "[(''repoUrl'', JsStr ''https://github.com/org/repo''),
        (''vulnerabilities'', JsArr [])]" and vs = "[]" and ttl = "Some 60" and cacheTTL = 60
      and defaultTTL = 86400 and t = 1000 and t' = 1000 and md5hex = sample_md5
      and toISO = sample_ISO and repoUrl = "''https://github.com/org/repo''"
      and provider = "''github''" and c = "\<lambda>_. None" and kvs = "[]"]
    C6_cache_round_trip [where result = "[(''repoUrl'', JsStr ''https://github.com/org/repo''),
        (''vulnerabilities'', JsArr [])]" and vs = "[]" and ttl = "Some 60" and cacheTTL = 60
      and defaultTTL = 86400 and t = 1000 and t' = 61000 and md5hex = sample_md5
      and toISO = sample_ISO and repoUrl = "''https://github.com/org/repo''"
      and provider = "''github''" and c = "\<lambda>_. None" and kvs = "[]"]
  by simp

text \<open>
  The claim as written fails on every result the service builds, because such a result
  holds a \<^verbatim>\<open>Date\<close>: stored and read back at once, \<^verbatim>\<open>metadata.scannedAt\<close> is a string,
  and the value returned is not equal to the value stored.
\<close>

theorem C6_deep_equal_counterexample:
  "getScanResult sample_md5 0 ''https://github.com/org/repo'' ''github''
     (fst (setScanResult sample_md5 sample_ISO 86400 0 ''https://github.com/org/repo'' ''github''
        (new_ScanResult ''https://github.com/org/repo'' ''github'' [] 1500 0)
        (Some 3600) (\<lambda>_. None)))
   = Some (JObj [(''repoUrl'', JStr ''https://github.com/org/repo''),
        (''provider'', JStr ''github''),
        (''vulnerabilities'', JArr []),
        (''metadata'', JObj [(''totalVulnerabilities'', JNum 0),
           (''verifiedVulnerabilities'', JNum 0),
           (''scanDuration'', JNum 1500),
           (''scannedAt'', JStr ''1970-01-01T00:00:00.000Z'')])])
   \<and> map_option js_of_json
       (getScanResult sample_md5 0 ''https://github.com/org/repo'' ''github''
         (fst (setScanResult sample_md5 sample_ISO 86400 0 ''https://github.com/org/repo''
            ''github''
            (new_ScanResult ''https://github.com/org/repo'' ''github'' [] 1500 0)
            (Some 3600) (\<lambda>_. None))))
     \<noteq> Some (JsObj (new_ScanResult ''https://github.com/org/repo'' ''github'' [] 1500 0))"
  by (simp add: getScanResult_def setScanResult_def setex_def redis_get_def
      generateCacheKey_def new_ScanResult_def sample_ISO_def json_has_length_def
      js_has_length_def get_prop_def Let_def)

section \<open>Properties of error reporting\<close>

lemma timeout_classified:
  "executeTruffleHog_catch (Error ''Command timeout'')
   = ScanError ''Scan timed out. Repository may be too large or network is slow.''"
  by (simp add: executeTruffleHog_catch_def error_message_def js_includes_def sublist_code)

lemma executeTruffleHog_catch_kind:
  "error_message e \<noteq> None \<Longrightarrow>
     (\<exists>m. executeTruffleHog_catch e = ScanError m) \<or> executeTruffleHog_catch e = e"
  by (auto simp: executeTruffleHog_catch_def split: option.splits)

lemma delivered_ScanError:
  assumes "currentScans s < maxConcurrentScans s" "error_message e \<noteq> None"
  shows "\<exists>m. scan_response (snd (ScanService_scanRepository s u p None True (Inl e) d n))
           = Inl (Respond 500 ''SCAN_ERROR'' m [])"
  using assms
  by (cases e)
    (simp_all add: scan_response_def ScanService_scanRepository_def scanRepository_def
      scanRepository_enter_def scanRepository_settle_def ScanService_catch_def
      errorHandler_def error_message_def Let_def)

text \<open>
  Claim C9, as the code has it. The four failures reach the caller as the same kind of
  error: status 500 and code \<^verbatim>\<open>SCAN_ERROR\<close>. Only the message tells them apart. Gate
  saturation, timeout and unavailable scanner have one fixed message each. For a process
  that exits with a code other than 0 the message is chosen by searching the error text
  for substrings, and is the exit-code text behind \<^verbatim>\<open>Failed to scan repository: \<close> when
  none of them occurs.
\<close>

theorem C9_error_kinds:
  "(maxConcurrentScans s \<le> currentScans s \<longrightarrow>
      gate_response s = Inl (Respond 500 ''SCAN_ERROR''
        ''Maximum concurrent scans reached. Please try again later.'' []))
   \<and> (currentScans s < maxConcurrentScans s \<longrightarrow>
      timeout_response JSON_parse s = Inl (Respond 500 ''SCAN_ERROR''
        ''Scan timed out. Repository may be too large or network is slow.'' [])
      \<and> (\<exists>m. exit_response JSON_parse s c err = Inl (Respond 500 ''SCAN_ERROR'' m []))
      \<and> (executeTruffleHog_catch (Error (exit_message c err)) = Error (exit_message c err) \<longrightarrow>
           exit_response JSON_parse s c err = Inl (Respond 500 ''SCAN_ERROR''
             (''Failed to scan repository: '' @ exit_message c err) [])))
   \<and> unavailable_response s = Inl (Respond 500 ''SCAN_ERROR''
        ''TruffleHog scanner is not available. Please ensure it is properly installed.'' [])"
proof -
  have g: "maxConcurrentScans s \<le> currentScans s \<longrightarrow>
      gate_response s = Inl (Respond 500 ''SCAN_ERROR''
        ''Maximum concurrent scans reached. Please try again later.'' [])"
    by (simp add: gate_response_def scan_response_def ScanService_scanRepository_def
        scanRepository_def scanRepository_enter_def ScanService_catch_def errorHandler_def)
  have t: "currentScans s < maxConcurrentScans s \<longrightarrow>
      timeout_response JSON_parse s = Inl (Respond 500 ''SCAN_ERROR''
        ''Scan timed out. Repository may be too large or network is slow.'' [])"
    by (simp add: timeout_response_def executeTruffleHog_def timeout_classified
        scan_response_def ScanService_scanRepository_def scanRepository_def
        scanRepository_enter_def scanRepository_settle_def ScanService_catch_def
        errorHandler_def Let_def)
  have e1: "currentScans s < maxConcurrentScans s \<longrightarrow>
      (\<exists>m. exit_response JSON_parse s c err = Inl (Respond 500 ''SCAN_ERROR'' m []))"
  proof
    assume free: "currentScans s < maxConcurrentScans s"
    have "error_message (executeTruffleHog_catch (Error (exit_message c err))) \<noteq> None"
      using executeTruffleHog_catch_kind [of "Error (exit_message c err)"]
      by (auto simp: error_message_def)
    from delivered_ScanError [OF free this]
    show "\<exists>m. exit_response JSON_parse s c err = Inl (Respond 500 ''SCAN_ERROR'' m [])"
      by (simp add: exit_response_def executeTruffleHog_def)
  qed
  have e2: "currentScans s < maxConcurrentScans s \<longrightarrow>
      executeTruffleHog_catch (Error (exit_message c err)) = Error (exit_message c err) \<longrightarrow>
           exit_response JSON_parse s c err = Inl (Respond 500 ''SCAN_ERROR''
             (''Failed to scan repository: '' @ exit_message c err) [])"
    by (simp add: exit_response_def executeTruffleHog_def
        scan_response_def ScanService_scanRepository_def scanRepository_def
        scanRepository_enter_def scanRepository_settle_def ScanService_catch_def
        errorHandler_def Let_def)
  have u: "unavailable_response s = Inl (Respond 500 ''SCAN_ERROR''
        ''TruffleHog scanner is not available. Please ensure it is properly installed.'' [])"
    by (simp add: unavailable_response_def scan_response_def ScanService_scanRepository_def
        ScanService_catch_def errorHandler_def)
  from g t e1 e2 u show ?thesis
    by blast
qed

theorem C9_error_kinds_witness:
  "gate_response ((new_TruffleHogService 3 300000)\<lparr>currentScans := 3\<rparr>)
     = Inl (Respond 500 ''SCAN_ERROR''
         ''Maximum concurrent scans reached. Please try again later.'' [])
   \<and> timeout_response sample_JSON (new_TruffleHogService 3 300000)
     = Inl (Respond 500 ''SCAN_ERROR''
         ''Scan timed out. Repository may be too large or network is slow.'' [])
   \<and> exit_response sample_JSON (new_TruffleHogService 3 300000) 1 ''fatal: boom''
     = Inl (Respond 500 ''SCAN_ERROR''
         ''Failed to scan repository: TruffleHog exited with code 1: fatal: boom'' [])
   \<and> unavailable_response (new_TruffleHogService 3 300000)
     = Inl (Respond 500 ''SCAN_ERROR''
         ''TruffleHog scanner is not available. Please ensure it is properly installed.'' [])"
proof -
  have d: "string_of_int 1 = ''1''"
    by code_simp
  have m: "exit_message 1 ''fatal: boom'' = ''TruffleHog exited with code 1: fatal: boom''"
    by (simp add: exit_message_def d)
  have k: "executeTruffleHog_catch (Error (exit_message 1 ''fatal: boom''))
      = Error (exit_message 1 ''fatal: boom'')"
    unfolding m
    by (simp add: executeTruffleHog_catch_def error_message_def js_includes_def sublist_code)
  show ?thesis
    using k m
      C9_error_kinds [of "(new_TruffleHogService 3 300000)\<lparr>currentScans := 3\<rparr>"
        sample_JSON 1 "''fatal: boom''"]
      C9_error_kinds [of "new_TruffleHogService 3 300000" sample_JSON 1 "''fatal: boom''"]
    by (simp add: new_TruffleHogService_def)
qed

text \<open>
  The claim as written fails: the kinds do not differ. A saturated gate, a timeout, a
  failed process and an unavailable scanner all answer with the code \<^verbatim>\<open>SCAN_ERROR\<close>;
  and a process that exits with code 1 after writing a network timeout to its standard
  error gets the very response of a scan that timed out.
\<close>

theorem C9_distinct_kinds_counterexample:
  "error_kind (gate_response ((new_TruffleHogService 3 300000)\<lparr>currentScans := 3\<rparr>))
     = Some ''SCAN_ERROR''
   \<and> error_kind (timeout_response sample_JSON (new_TruffleHogService 3 300000))
     = Some ''SCAN_ERROR''
   \<and> error_kind (exit_response sample_JSON (new_TruffleHogService 3 300000) 1 ''fatal: boom'')
     = Some ''SCAN_ERROR''
   \<and> error_kind (unavailable_response (new_TruffleHogService 3 300000))
     = Some ''SCAN_ERROR''
   \<and> exit_response sample_JSON (new_TruffleHogService 3 300000) 1 ''dial tcp: i/o timeout''
     = timeout_response sample_JSON (new_TruffleHogService 3 300000)"
proof -
  have d: "string_of_int 1 = ''1''"
    by code_simp
  have m1: "exit_message 1 ''fatal: boom'' = ''TruffleHog exited with code 1: fatal: boom''"
    and m2: "exit_message 1 ''dial tcp: i/o timeout''
      = ''TruffleHog exited with code 1: dial tcp: i/o timeout''"
    by (simp_all add: exit_message_def d)
  have k1: "executeTruffleHog_catch (Error (exit_message 1 ''fatal: boom''))
      = Error (exit_message 1 ''fatal: boom'')"
    unfolding m1
    by (simp add: executeTruffleHog_catch_def error_message_def js_includes_def sublist_code)
  have k2: "executeTruffleHog_catch (Error (exit_message 1 ''dial tcp: i/o timeout''))
      = ScanError ''Scan timed out. Repository may be too large or network is slow.''"
    unfolding m2
    by (simp add: executeTruffleHog_catch_def error_message_def js_includes_def sublist_code)
  show ?thesis
    by (simp add: error_kind_def gate_response_def timeout_response_def exit_response_def
        unavailable_response_def executeTruffleHog_def timeout_classified k1 k2
        scan_response_def ScanService_scanRepository_def scanRepository_def
        scanRepository_enter_def scanRepository_settle_def ScanService_catch_def
        errorHandler_def new_TruffleHogService_def Let_def)
qed

end
